theory Spec2Isabelle
  imports Main "HOL-Library.AList" "HOL-Library.Product_Lexorder"
begin

section \<open>Python values used by the timezone cog\<close>

text \<open>
  The cog of \<^verbatim>\<open>main.py\<close> keeps one JSON document on disk
  (\<^verbatim>\<open>TIMEZONE_FILE\<close>) and one dictionary of live messages in memory. Python
  dictionaries keep their keys in insertion order and hold every key once, so a dictionary
  is an association list here: \<^const>\<open>AList.update\<close> overwrites the value of a key
  where it stands or appends a new key at the end, \<^const>\<open>AList.delete\<close> is
  \<^verbatim>\<open>del d[k]\<close>, \<^const>\<open>AList.map_entry\<close> mutates the object stored under a
  key, and \<^const>\<open>map_of\<close> is the lookup. A Python string is the list of the bytes
  of its UTF-8 encoding, so a character of ASCII is one \<^typ>\<open>char\<close> and two strings are
  equal exactly when their lists are. What Python decides from its Unicode tables
  (\<^verbatim>\<open>str.casefold\<close>, and \<^verbatim>\<open>str.strip\<close> on a text that may begin or end
  outside ASCII) is not computed here: it is a parameter of the function that uses it.
\<close>

datatype error = RuntimeError | ValueError | KeyError | AttributeError | UnknownTimeZoneError

subsection \<open>\<^verbatim>\<open>str(n)\<close> and \<^verbatim>\<open>int(s)\<close>\<close>

definition digit_char :: "nat \<Rightarrow> char" where
  "digit_char d = char_of (48 + d)"

fun str_nat :: "nat \<Rightarrow> string" where
  "str_nat n = (if n < 10 then [digit_char n] else str_nat (n div 10) @ [digit_char (n mod 10)])"

declare str_nat.simps [simp del]

definition str_int :: "int \<Rightarrow> string" where
  "str_int i = (if i < 0 then CHR ''-'' # str_nat (nat (- i)) else str_nat (nat i))"

text \<open>
  \<^verbatim>\<open>str.lstrip\<close>, \<^verbatim>\<open>str.rstrip\<close> and \<^verbatim>\<open>str.strip\<close> remove the
  characters of \<^verbatim>\<open>str.isspace\<close> from the ends of a text. Below \<^verbatim>\<open>U+0080\<close>
  these are tab, line feed, vertical tab, form feed, carriage return, the four separators
  \<^verbatim>\<open>0x1c..0x1f\<close> and the space. The three functions are used on the text of the
  display only, whose first and last characters that are not removed are ASCII, so that
  no byte of a longer encoding is ever looked at.
\<close>

definition is_space :: "char \<Rightarrow> bool" where
  "is_space c = (let n = (of_char c :: nat) in (9 \<le> n \<and> n \<le> 13) \<or> (28 \<le> n \<and> n \<le> 32))"

definition lstrip :: "string \<Rightarrow> string" where
  "lstrip s = dropWhile is_space s"

definition rstrip :: "string \<Rightarrow> string" where
  "rstrip s = rev (dropWhile is_space (rev s))"

definition strip :: "string \<Rightarrow> string" where
  "strip s = rstrip (lstrip s)"

definition is_digit :: "char \<Rightarrow> bool" where
  "is_digit c = (let n = (of_char c :: nat) in 48 \<le> n \<and> n \<le> 57)"

text \<open>
  \<^verbatim>\<open>int(s)\<close> on a text of ASCII characters. The whitespace that \<^verbatim>\<open>int\<close>
  skips at both ends is that of the C function \<^verbatim>\<open>isspace\<close>: tab, line feed,
  vertical tab, form feed, carriage return and space, and not the separators
  \<^verbatim>\<open>0x1c..0x1f\<close> that \<^verbatim>\<open>str.strip\<close> removes. Then comes an optional sign
  and the digits: groups of decimal digits, a single underscore allowed between two
  digits (the flag of \<open>digit_groups\<close> says that the character before was a digit).
  A text of more than \<^verbatim>\<open>sys.int_max_str_digits\<close> digits (4300 unless the
  interpreter is told otherwise) is refused. Every other text raises
  \<^verbatim>\<open>ValueError\<close>. The keys that the cog writes are the texts \<open>str_int i\<close>.
  A key with a byte outside ASCII is refused here, where Python would accept the decimal
  digits and the whitespace of other scripts: on such a key, which the cog never writes,
  the loop of \<^verbatim>\<open>get_timezone(guild_id)\<close> ends with \<^verbatim>\<open>ValueError\<close> here and
  may go on in Python.
\<close>

definition int_space :: "char \<Rightarrow> bool" where
  "int_space c = (let n = (of_char c :: nat) in (9 \<le> n \<and> n \<le> 13) \<or> n = 32)"

definition int_strip :: "string \<Rightarrow> string" where
  "int_strip s = rev (dropWhile int_space (rev (dropWhile int_space s)))"

fun digit_groups :: "bool \<Rightarrow> string \<Rightarrow> bool" where
  "digit_groups prev [] = prev"
| "digit_groups prev (c # cs) =
     (if is_digit c then digit_groups True cs
      else c = CHR ''_'' \<and> prev \<and> digit_groups False cs)"

definition digits_value :: "string \<Rightarrow> nat" where
  "digits_value s = foldl (\<lambda>acc c. 10 * acc + (of_char c - 48)) 0 s"

definition int_max_str_digits :: nat where
  "int_max_str_digits = 4300"

definition py_int :: "string \<Rightarrow> error + int" where
  "py_int s =
     (let t = int_strip s;
          (neg, body) =
            (case t of
               [] \<Rightarrow> (False, [])
             | c # r \<Rightarrow>
                 if c = CHR ''-'' then (True, r)
                 else if c = CHR ''+'' then (False, r)
                 else (False, t));
          digits = filter (\<lambda>c. c \<noteq> CHR ''_'') body
      in if digit_groups False body \<and> length digits \<le> int_max_str_digits
         then Inr ((if neg then - 1 else 1) * int (digits_value digits))
         else Inl ValueError)"

subsection \<open>The timezone database\<close>

text \<open>
  \<^verbatim>\<open>pytz.timezone(name)\<close> returns the zone of that name or raises
  \<^verbatim>\<open>UnknownTimeZoneError\<close>. The database is a parameter: a partial map from
  identifiers to zones.
\<close>

definition pytz_timezone :: "(string \<rightharpoonup> 'tz) \<Rightarrow> string \<Rightarrow> error + 'tz" where
  "pytz_timezone db name =
     (case db name of None \<Rightarrow> Inl UnknownTimeZoneError | Some tz \<Rightarrow> Inr tz)"

section \<open>The store document and its lock\<close>

text \<open>
  The document maps \<^verbatim>\<open>str(guild_id)\<close> to an object with the field
  \<^verbatim>\<open>"timezones"\<close> (a dictionary from \<^verbatim>\<open>str(user_id)\<close> to an identifier)
  and the optional field \<^verbatim>\<open>"time_message"\<close> (channel id and message id).
  \<^verbatim>\<open>json.dump\<close> followed by \<^verbatim>\<open>json.load\<close> gives the same dictionaries back, in
  the same order, so the file holds the document itself.
\<close>

record guild_data =
  timezones :: "(string \<times> string) list"
  time_message :: "(int \<times> int) option"

type_synonym document = "(string \<times> guild_data) list"

text \<open>
  What happens to \<^verbatim>\<open>timezone_file_lock\<close> and to the file is recorded in order:
  entering and leaving an \<^verbatim>\<open>async with self.timezone_file_lock\<close> block, a
  \<^verbatim>\<open>json.load\<close> of the file and a \<^verbatim>\<open>json.dump\<close> to it.
\<close>

datatype lock_event = Acquire | Load | Dump | Release

record store =
  timezone_file :: document
  events :: "lock_event list"

definition acquire :: "store \<Rightarrow> store" where
  "acquire s = s\<lparr>events := events s @ [Acquire]\<rparr>"

definition release :: "store \<Rightarrow> store" where
  "release s = s\<lparr>events := events s @ [Release]\<rparr>"

definition json_load :: "store \<Rightarrow> document \<times> store" where
  "json_load s = (timezone_file s, s\<lparr>events := events s @ [Load]\<rparr>)"

definition json_dump :: "document \<Rightarrow> store \<Rightarrow> store" where
  "json_dump data s = s\<lparr>timezone_file := data, events := events s @ [Dump]\<rparr>"

definition new_guild :: guild_data where
  "new_guild = \<lparr>timezones = [], time_message = None\<rparr>"

text \<open>\<^verbatim>\<open>data[g]["timezones"][u] = timezone\<close> and \<^verbatim>\<open>del data[g]["timezones"][u]\<close>.\<close>

definition set_user :: "string \<Rightarrow> string \<Rightarrow> string \<Rightarrow> document \<Rightarrow> document" where
  "set_user g u timezone data =
     AList.map_entry g (\<lambda>e. e\<lparr>timezones := AList.update u timezone (timezones e)\<rparr>) data"

definition del_user :: "string \<Rightarrow> string \<Rightarrow> document \<Rightarrow> document" where
  "del_user g u data =
     AList.map_entry g (\<lambda>e. e\<lparr>timezones := AList.delete u (timezones e)\<rparr>) data"

subsection \<open>\<^verbatim>\<open>save_timezone\<close>\<close>

definition save_timezone :: "store \<Rightarrow> int \<Rightarrow> int \<Rightarrow> string \<Rightarrow> store" where
  "save_timezone s guild_id user_id timezone =
     (let (data, s1) = json_load (acquire s);
          data1 = (if map_of data (str_int guild_id) = None
                   then AList.update (str_int guild_id) new_guild data else data);
          data2 = set_user (str_int guild_id) (str_int user_id) timezone data1
      in release (json_dump data2 s1))"

subsection \<open>\<^verbatim>\<open>get_timezone\<close>\<close>

text \<open>
  The function returns a zone, a dictionary of zones or \<^verbatim>\<open>None\<close>.
\<close>

datatype 'tz found = NotSet | Zone 'tz | Zones "(int \<times> 'tz) list"

text \<open>
  The loop over \<^verbatim>\<open>data[str(guild_id)]["timezones"].items()\<close>. A dictionary iterator
  remembers the size the dictionary had when the loop began (\<open>used\<close>) and compares it with
  the present size each time the loop asks for the next item, before it looks whether any
  item is left; a difference is \<^verbatim>\<open>RuntimeError: dictionary changed size during
  iteration\<close>. In the assignment \<^verbatim>\<open>timezones[int(user_id)] = pytz.timezone(timezone)\<close>
  the right-hand side is evaluated first. The handler deletes the entry from the
  dictionary the loop runs over and writes the document back under the lock.
\<close>

fun get_all_loop ::
  "(string \<rightharpoonup> 'tz) \<Rightarrow> string \<Rightarrow> nat \<Rightarrow> (string \<times> string) list \<Rightarrow> store \<Rightarrow> document
     \<Rightarrow> (int \<times> 'tz) list \<Rightarrow> store \<times> (error + 'tz found)" where
  "get_all_loop db g used rest s data tzs =
     (if (case map_of data g of None \<Rightarrow> 0 | Some e \<Rightarrow> length (timezones e)) \<noteq> used
      then (s, Inl RuntimeError)
      else
        (case rest of
           [] \<Rightarrow> (s, Inr (Zones tzs))
         | (user_id, timezone) # rest' \<Rightarrow>
             (case pytz_timezone db timezone of
                Inr tz \<Rightarrow>
                  (case py_int user_id of
                     Inl e \<Rightarrow> (s, Inl e)
                   | Inr uid \<Rightarrow> get_all_loop db g used rest' s data (AList.update uid tz tzs))
              | Inl _ \<Rightarrow>
                  (let data' = del_user g user_id data;
                       s' = release (json_dump data' (acquire s))
                   in get_all_loop db g used rest' s' data' tzs))))"

declare get_all_loop.simps [simp del]

definition get_timezone ::
  "(string \<rightharpoonup> 'tz) \<Rightarrow> store \<Rightarrow> int \<Rightarrow> int option \<Rightarrow> store \<times> (error + 'tz found)" where
  "get_timezone db s guild_id user_id =
     (let (data, s0) = json_load (acquire s);
          s1 = release s0
      in case user_id of
           None \<Rightarrow>
             (case map_of data (str_int guild_id) of
                None \<Rightarrow> (s1, Inr (Zones []))
              | Some e \<Rightarrow>
                  get_all_loop db (str_int guild_id) (length (timezones e)) (timezones e) s1 data [])
         | Some uid \<Rightarrow>
             (case map_of data (str_int guild_id) of
                None \<Rightarrow> (s1, Inr NotSet)
              | Some e \<Rightarrow>
                  (case map_of (timezones e) (str_int uid) of
                     None \<Rightarrow> (s1, Inr NotSet)
                   | Some user_timezone \<Rightarrow>
                       if user_timezone = [] then (s1, Inr NotSet)
                       else
                         (case pytz_timezone db user_timezone of
                            Inr tz \<Rightarrow> (s1, Inr (Zone tz))
                          | Inl _ \<Rightarrow>
                              (let data' = del_user (str_int guild_id) (str_int uid) data
                               in (release (json_dump data' (acquire s1)), Inr NotSet))))))"

subsection \<open>\<^verbatim>\<open>remove_timezone\<close>\<close>

definition remove_timezone :: "store \<Rightarrow> int \<Rightarrow> int \<Rightarrow> store" where
  "remove_timezone s guild_id user_id =
     (let (data, s1) = json_load (acquire s)
      in case map_of data (str_int guild_id) of
           None \<Rightarrow> release s1
         | Some e \<Rightarrow>
             if map_of (timezones e) (str_int user_id) \<noteq> None
             then release (json_dump (del_user (str_int guild_id) (str_int user_id) data) s1)
             else release s1)"

subsection \<open>The persisted location of the time message\<close>

text \<open>\<^verbatim>\<open>data.get(str(guild_id), {}).get("time_message", None)\<close>.\<close>

definition stored_time_message :: "document \<Rightarrow> int \<Rightarrow> (int \<times> int) option" where
  "stored_time_message data guild_id =
     (case map_of data (str_int guild_id) of None \<Rightarrow> None | Some e \<Rightarrow> time_message e)"



text \<open>The part of \<^verbatim>\<open>remove_time_message\<close> that runs under the lock.\<close>

definition remove_stored_time_message :: "store \<Rightarrow> int \<Rightarrow> store" where
  "remove_stored_time_message s guild_id =
     (let (data, s1) = json_load (acquire s)
      in case map_of data (str_int guild_id) of
           None \<Rightarrow> release s1
         | Some e \<Rightarrow>
             if time_message e \<noteq> None
             then release (json_dump
                    (AList.map_entry (str_int guild_id) (\<lambda>e. e\<lparr>time_message := None\<rparr>) data) s1)
             else release s1)"

text \<open>The identifier stored for a member, and the stored dictionary of a guild.\<close>

definition stored_timezone :: "document \<Rightarrow> int \<Rightarrow> int \<Rightarrow> string option" where
  "stored_timezone data guild_id user_id =
     (case map_of data (str_int guild_id) of
        None \<Rightarrow> None
      | Some e \<Rightarrow> map_of (timezones e) (str_int user_id))"

definition guild_timezones :: "document \<Rightarrow> int \<Rightarrow> (string \<times> string) list" where
  "guild_timezones data guild_id =
     (case map_of data (str_int guild_id) of None \<Rightarrow> [] | Some e \<Rightarrow> timezones e)"




section \<open>The display of everyone's time\<close>

text \<open>
  The clock, the timezone database and the platform are outside the program. An
  environment gives what the cog reads from them during one call:
  \<^item> \<open>tzdb\<close>: \<^verbatim>\<open>pytz.timezone\<close>;
  \<^item> \<open>zone\<close>: \<^verbatim>\<open>tz.zone\<close>;
  \<^item> \<open>now_string\<close>: \<^verbatim>\<open>datetime.datetime.now(tz).strftime("%b %d, %Y %H:%M:%S %Z").strip()\<close>;
  \<^item> \<open>naive_time\<close>: \<^verbatim>\<open>time_now.astimezone(tz).replace(tzinfo=None)\<close>, a naive
    date-time, ordered as Python orders them;
  \<^item> \<open>strftime\<close>: \<^verbatim>\<open>naive_time.strftime('%b %d, %Y %I:%M:%S %p')\<close>;
  \<^item> \<open>timestamp\<close>: \<^verbatim>\<open>int(time_now.timestamp())\<close>;
  \<^item> \<open>get_guild\<close>: whether \<^verbatim>\<open>bot.get_guild(guild_id)\<close> is a guild;
  \<^item> \<open>send_messages\<close>:
    \<^verbatim>\<open>time_message.channel.permissions_for(guild.me).send_messages\<close>.
\<close>

record ('tz, 'dt) env =
  tzdb :: "string \<rightharpoonup> 'tz"
  zone :: "'tz \<Rightarrow> string"
  now_string :: "'tz \<Rightarrow> string"
  naive_time :: "'tz \<Rightarrow> 'dt"
  strftime :: "'dt \<Rightarrow> string"
  timestamp :: int
  get_guild :: "int \<Rightarrow> bool"
  send_messages :: "int \<Rightarrow> int \<times> int \<Rightarrow> bool"

text \<open>
  The loop that fills \<^verbatim>\<open>users_by_timezones\<close>: a new key gets a list of one user, a
  key already there gets the user appended to its list.
\<close>

fun group_users ::
  "('tz \<Rightarrow> 'dt) \<Rightarrow> (int \<times> 'tz) list \<Rightarrow> ('dt \<times> (int \<times> 'tz) list) list
     \<Rightarrow> ('dt \<times> (int \<times> 'tz) list) list" where
  "group_users naive [] users_by_timezones = users_by_timezones"
| "group_users naive ((user_id, tz) # rest) users_by_timezones =
     (case map_of users_by_timezones (naive tz) of
        None \<Rightarrow>
          group_users naive rest (AList.update (naive tz) [(user_id, tz)] users_by_timezones)
      | Some users \<Rightarrow>
          group_users naive rest
            (AList.update (naive tz) (users @ [(user_id, tz)]) users_by_timezones))"

definition users_by_timezones_sorted ::
  "('tz \<Rightarrow> 'dt::linorder) \<Rightarrow> (int \<times> 'tz) list \<Rightarrow> ('dt \<times> (int \<times> 'tz) list) list" where
  "users_by_timezones_sorted naive tzs =
     sort_key (\<lambda>x. (fst x, length (snd x))) (group_users naive tzs [])"

fun join :: "string \<Rightarrow> string list \<Rightarrow> string" where
  "join sep [] = []"
| "join sep [x] = x"
| "join sep (x # y # ys) = x @ sep @ join sep (y # ys)"

definition mention :: "int \<Rightarrow> string" where
  "mention user_id = ''<@'' @ str_int user_id @ ''>''"

definition group_text :: "('dt \<Rightarrow> string) \<Rightarrow> 'dt \<times> (int \<times> 'tz) list \<Rightarrow> string" where
  "group_text fmt g =
     ''**'' @ fmt (fst g) @ '':**'' @ [CHR 0x0A]
       @ join '' '' (map (\<lambda>(user_id, tz). mention user_id) (snd g)) @ [CHR 0x0A, CHR 0x0A]"

definition no_timezone_text :: string where
  "no_timezone_text = ''No one has set their timezone.''"

text \<open>\<^verbatim>\<open>time_text\<close> after \<^verbatim>\<open>time_text = time_text.rstrip()\<close>.\<close>

definition time_text ::
  "('tz \<Rightarrow> 'dt::linorder) \<Rightarrow> ('dt \<Rightarrow> string) \<Rightarrow> (int \<times> 'tz) list \<Rightarrow> string" where
  "time_text naive fmt tzs =
     rstrip (if tzs = [] then no_timezone_text
             else concat (map (group_text fmt) (users_by_timezones_sorted naive tzs)))"

record embed =
  title :: string
  description :: string

definition last_updated :: "int \<Rightarrow> string" where
  "last_updated ts = [CHR 0x0A, CHR 0x0A] @ ''*Last Updated: <t:'' @ str_int ts @ '':f>*''"

definition embed_of ::
  "('tz, 'dt::linorder) env \<Rightarrow> bool \<Rightarrow> (int \<times> 'tz) list \<Rightarrow> embed" where
  "embed_of env show_last_updated tzs =
     (let text = time_text (naive_time env) (strftime env) tzs;
          text' = (if show_last_updated then text @ last_updated (timestamp env) else text)
      in \<lparr>title = ''What'' @ [CHR 0x27] @ ''s the time?'', description = strip text'\<rparr>)"

text \<open>
  \<^verbatim>\<open>create_time_message_embed\<close>. The accent colour comes from a generator of random
  floating-point colours and is left out of the embed. \<^verbatim>\<open>get_timezone\<close> without a
  user returns a dictionary.
\<close>

definition create_time_message_embed ::
  "('tz, 'dt::linorder) env \<Rightarrow> store \<Rightarrow> int \<Rightarrow> bool \<Rightarrow> store \<times> (error + embed)" where
  "create_time_message_embed env s guild_id show_last_updated =
     (case get_timezone (tzdb env) s guild_id None of
        (s', Inl e) \<Rightarrow> (s', Inl e)
      | (s', Inr NotSet) \<Rightarrow> (s', Inr (embed_of env show_last_updated []))
      | (s', Inr (Zone tz)) \<Rightarrow> (s', Inl AttributeError)
      | (s', Inr (Zones tzs)) \<Rightarrow> (s', Inr (embed_of env show_last_updated tzs)))"

section \<open>The cog: message cache, refresh task and commands\<close>

text \<open>
  A live message is known by its channel id and its message id. The cog holds the store,
  the dictionary \<^verbatim>\<open>time_message_cache\<close> from guild ids to live messages, and what it
  has asked the platform to do, in order: replies to a command, edits and deletions of a
  message. A failure of the platform to carry out an edit or a deletion is caught and
  logged by the code and changes nothing in the cog.
\<close>

type_synonym message = "int \<times> int"

datatype action = Reply string | Edit message embed | Delete message

record cog =
  disk :: store
  time_message_cache :: "(int \<times> message) list"
  outbox :: "action list"

definition remove_time_message :: "cog \<Rightarrow> int \<Rightarrow> cog" where
  "remove_time_message cg guild_id =
     cg\<lparr>disk := remove_stored_time_message (disk cg) guild_id,
        time_message_cache := AList.delete guild_id (time_message_cache cg)\<rparr>"

text \<open>
  One turn of the loop of \<^verbatim>\<open>time_message_updater_task\<close>. An exception raised inside
  the \<^verbatim>\<open>try\<close> block is logged and the loop goes on with the next guild.
\<close>

definition update_guild :: "('tz, 'dt::linorder) env \<Rightarrow> cog \<Rightarrow> int \<Rightarrow> cog" where
  "update_guild env cg guild_id =
     (if \<not> get_guild env guild_id then remove_time_message cg guild_id
      else
        (case map_of (time_message_cache cg) guild_id of
           None \<Rightarrow> cg
         | Some msg \<Rightarrow>
             if send_messages env guild_id msg
             then
               (case create_time_message_embed env (disk cg) guild_id True of
                  (s', Inl e) \<Rightarrow> cg\<lparr>disk := s'\<rparr>
                | (s', Inr em) \<Rightarrow> cg\<lparr>disk := s', outbox := outbox cg @ [Edit msg em]\<rparr>)
             else cg))"

definition time_message_updater_task :: "('tz, 'dt::linorder) env \<Rightarrow> cog \<Rightarrow> cog" where
  "time_message_updater_task env cg =
     foldl (update_guild env) cg (map fst (time_message_cache cg))"

definition no_time_message_text :: string where
  "no_time_message_text = ''No persistent time message exists.''"

definition time_message_clear :: "cog \<Rightarrow> int \<Rightarrow> cog" where
  "time_message_clear cg guild_id =
     (case map_of (time_message_cache cg) guild_id of
        None \<Rightarrow> cg\<lparr>outbox := outbox cg @ [Reply no_time_message_text]\<rparr>
      | Some msg \<Rightarrow>
          (let cg1 = remove_time_message (cg\<lparr>outbox := outbox cg @ [Delete msg]\<rparr>) guild_id
           in cg1\<lparr>outbox := outbox cg1 @ [Reply ''Persistent time message cleared.'']\<rparr>))"

text \<open>
  The command \<^verbatim>\<open>timezone set\<close>. Its invocation (\<^verbatim>\<open>ctx\<close>) gives the guild, the author and whether the
  author has the permission \<^verbatim>\<open>manage_guild\<close>. The argument \<open>timezone\<close> is any text
  that a user types; \<open>casefold_strip\<close> is \<^verbatim>\<open>timezone.casefold().strip()\<close> of
  line 266, which Python computes from its Unicode tables.
\<close>

record invocation =
  guild :: int
  author :: int
  manage_guild :: bool

definition invalid_timezone_text :: string where
  "invalid_timezone_text =
     ''Invalid timezone.'' @ [CHR 0x0A] @ ''Please provide a valid TZ identifier from ''
       @ ''[here](<https://en.wikipedia.org/wiki/List_of_tz_database_time_zones#List>).''"

definition no_permission_text :: string where
  "no_permission_text = ''You do not have permission to set the timezone for others.''"

definition timezone_set ::
  "('tz, 'dt) env \<Rightarrow> (string \<Rightarrow> string) \<Rightarrow> cog \<Rightarrow> invocation \<Rightarrow> string \<Rightarrow> int option
     \<Rightarrow> cog" where
  "timezone_set env casefold_strip cg ctx timezone user =
     (let target =
            (case user of
               None \<Rightarrow> Some (author ctx)
             | Some u \<Rightarrow> if \<not> manage_guild ctx \<and> author ctx \<noteq> u then None else Some u)
      in case target of
           None \<Rightarrow> cg\<lparr>outbox := outbox cg @ [Reply no_permission_text]\<rparr>
         | Some uid \<Rightarrow>
             (let timezone' = casefold_strip timezone
              in case pytz_timezone (tzdb env) timezone' of
                   Inl e \<Rightarrow> cg\<lparr>outbox := outbox cg @ [Reply invalid_timezone_text]\<rparr>
                 | Inr tz \<Rightarrow>
                     cg\<lparr>disk := save_timezone (disk cg) (guild ctx) uid timezone',
                        outbox := outbox cg @
                          [Reply (mention uid @ [CHR 0x27] @ ''s timezone is set to '' @ zone env tz
                                  @ ''. The current date and time is '' @ now_string env tz
                                  @ ''.'')]\<rparr>))"

section \<open>Notions used to state the properties\<close>

text \<open>
  What the loop over \<^verbatim>\<open>timezones.items()\<close> keeps true of \<^verbatim>\<open>users_by_timezones\<close>:
  every user stands under the key that is the naive time of the user's zone. The members
  of a grouping are the users of all its groups.
\<close>

definition keyed :: "('tz \<Rightarrow> 'dt) \<Rightarrow> ('dt \<times> (int \<times> 'tz) list) list \<Rightarrow> bool" where
  "keyed naive acc \<longleftrightarrow> (\<forall>(k, us) \<in> set acc. \<forall>(u, tz) \<in> set us. naive tz = k)"

definition members :: "('dt \<times> (int \<times> 'tz) list) list \<Rightarrow> (int \<times> 'tz) set" where
  "members acc = (\<Union>g \<in> set acc. set (snd g))"

text \<open>
  The dictionary that the loop of \<^verbatim>\<open>get_timezone(guild_id)\<close> builds from the stored
  items when it runs to its end: the items whose identifier the database knows, under
  the integer of their key.
\<close>

fun parsed_timezones ::
  "(string \<rightharpoonup> 'tz) \<Rightarrow> (string \<times> string) list \<Rightarrow> (int \<times> 'tz) list \<Rightarrow> (int \<times> 'tz) list" where
  "parsed_timezones db [] tzs = tzs"
| "parsed_timezones db ((user_id, timezone) # rest) tzs =
     (case (pytz_timezone db timezone, py_int user_id) of
        (Inr tz, Inr uid) \<Rightarrow> parsed_timezones db rest (AList.update uid tz tzs)
      | _ \<Rightarrow> parsed_timezones db rest tzs)"

text \<open>
  The edit that one tick of the refresh task issues for a cached guild, given the store
  at the start of the tick: none for a guild that does not resolve or whose channel does
  not grant \<^verbatim>\<open>send_messages\<close>, none when \<^verbatim>\<open>create_time_message_embed\<close> raises,
  and otherwise the edit of the cached message with the embed computed.
\<close>

definition expected_edits ::
  "('tz, 'dt::linorder) env \<Rightarrow> store \<Rightarrow> int \<times> message \<Rightarrow> action list" where
  "expected_edits env s gm =
     (if get_guild env (fst gm) \<and> send_messages env (fst gm) (snd gm)
      then (case snd (create_time_message_embed env s (fst gm) True) of
              Inl e \<Rightarrow> []
            | Inr em \<Rightarrow> [Edit (snd gm) em])
      else [])"

section \<open>Decimal keys\<close>

text \<open>\<^verbatim>\<open>str\<close> gives different strings for different integers.\<close>

lemma of_char_digit: "d < 10 \<Longrightarrow> of_char (digit_char d) = 48 + d"
  by (simp add: digit_char_def)

lemma digit_char_inj: 
  assumes "a < 10" "b < 10" "digit_char a = digit_char b" shows "a = b"
proof -
  have "(of_char (digit_char a) :: nat) = of_char (digit_char b)" using assms(3) by simp
  with assms(1,2) show ?thesis by (simp add: of_char_digit)
qed

lemma digit_char_not_minus: 
  assumes "d < 10" shows "digit_char d \<noteq> CHR ''-''"
proof
  assume "digit_char d = CHR ''-''"
  then have "(of_char (digit_char d) :: nat) = of_char CHR ''-''" by simp
  with assms show False by (simp add: of_char_digit)
qed

lemma str_nat_not_Nil: "str_nat n \<noteq> []"
  by (subst str_nat.simps) simp

lemma str_nat_small: "n < 10 \<Longrightarrow> str_nat n = [digit_char n]"
  by (subst str_nat.simps) simp

lemma str_nat_big: "\<not> n < 10 \<Longrightarrow> str_nat n = str_nat (n div 10) @ [digit_char (n mod 10)]"
  by (subst str_nat.simps) simp


lemma str_nat_inj: "str_nat n = str_nat m \<Longrightarrow> n = m"
proof (induction n arbitrary: m rule: str_nat.induct)
  case (1 n)
  show ?case
  proof (cases "n < 10")
    case True
    have n: "str_nat n = [digit_char n]" by (rule str_nat_small [OF True])
    show ?thesis
    proof (cases "m < 10")
      case m: True
      have "str_nat m = [digit_char m]" by (rule str_nat_small [OF m])
      with n "1.prems" have "digit_char n = digit_char m" by simp
      with True m show ?thesis by (rule digit_char_inj)
    next
      case False
      have "str_nat m = str_nat (m div 10) @ [digit_char (m mod 10)]"
        by (rule str_nat_big [OF False])
      with n "1.prems" have "[digit_char n] = str_nat (m div 10) @ [digit_char (m mod 10)]"
        by simp
      then have "str_nat (m div 10) = []" by simp
      then show ?thesis using str_nat_not_Nil by blast
    qed
  next
    case False
    have n: "str_nat n = str_nat (n div 10) @ [digit_char (n mod 10)]"
      by (rule str_nat_big [OF False])
    show ?thesis
    proof (cases "m < 10")
      case True
      have "str_nat m = [digit_char m]" by (rule str_nat_small [OF True])
      with n "1.prems" have "str_nat (n div 10) @ [digit_char (n mod 10)] = [digit_char m]"
        by simp
      then have "str_nat (n div 10) = []" by simp
      then show ?thesis using str_nat_not_Nil by blast
    next
      case m: False
      have "str_nat m = str_nat (m div 10) @ [digit_char (m mod 10)]"
        by (rule str_nat_big [OF m])
      with n "1.prems"
      have "str_nat (n div 10) @ [digit_char (n mod 10)]
              = str_nat (m div 10) @ [digit_char (m mod 10)]" by simp
      then have e: "str_nat (n div 10) = str_nat (m div 10)"
        and d: "digit_char (n mod 10) = digit_char (m mod 10)" by simp_all
      from "1.IH" [OF False e] have "n div 10 = m div 10" .
      moreover have "n mod 10 = m mod 10" by (rule digit_char_inj [OF _ _ d]) simp_all
      ultimately show ?thesis by (metis div_mult_mod_eq)
    qed
  qed
qed

lemma str_nat_hd: "hd (str_nat n) \<noteq> CHR ''-''"
proof (induction n rule: str_nat.induct)
  case (1 n)
  show ?case
  proof (cases "n < 10")
    case True
    have "str_nat n = [digit_char n]" by (rule str_nat_small [OF True])
    then have "hd (str_nat n) = digit_char n" by simp
    with digit_char_not_minus [OF True] show ?thesis by simp
  next
    case False
    have "str_nat n = str_nat (n div 10) @ [digit_char (n mod 10)]"
      by (rule str_nat_big [OF False])
    then have "hd (str_nat n) = hd (str_nat (n div 10))"
      using str_nat_not_Nil [of "n div 10"] by simp
    with "1.IH" [OF False] show ?thesis by simp
  qed
qed

lemma str_int_inj:
  assumes "str_int a = str_int b"
  shows "a = b"
proof (cases "a < 0")
  case True
  show ?thesis
  proof (cases "b < 0")
    case b: True
    with True assms have "str_nat (nat (- a)) = str_nat (nat (- b))" by (simp add: str_int_def)
    then have "nat (- a) = nat (- b)" by (rule str_nat_inj)
    with True b show ?thesis by simp
  next
    case False
    with True assms have "CHR ''-'' # str_nat (nat (- a)) = str_nat (nat b)"
      by (simp add: str_int_def)
    then have "hd (str_nat (nat b)) = CHR ''-''" by (metis list.sel(1))
    then show ?thesis using str_nat_hd by blast
  qed
next
  case False
  show ?thesis
  proof (cases "b < 0")
    case True
    with False assms have "str_nat (nat a) = CHR ''-'' # str_nat (nat (- b))"
      by (simp add: str_int_def)
    then have "hd (str_nat (nat a)) = CHR ''-''" by simp
    then show ?thesis using str_nat_hd by blast
  next
    case b: False
    with False assms have "str_nat (nat a) = str_nat (nat b)" by (simp add: str_int_def)
    then have "nat a = nat b" by (rule str_nat_inj)
    with False b show ?thesis by simp
  qed
qed

lemma str_int_eq_iff: "str_int a = str_int b \<longleftrightarrow> a = b"
  using str_int_inj by blast

lemma str_int_small:
  "str_int 1 = ''1''" "str_int 2 = ''2''" "str_int 5 = ''5''" "str_int 6 = ''6''"
  "str_int 7 = ''7''"
  by code_simp+

section \<open>Saving, reading and removing a timezone\<close>

lemma map_of_set_user_same:
  "map_of (set_user g u z data) g =
     map_option (\<lambda>e. e\<lparr>timezones := AList.update u z (timezones e)\<rparr>) (map_of data g)"
  by (simp add: set_user_def map_of_map_entry split: option.split)

lemma map_of_set_user_other: "g' \<noteq> g \<Longrightarrow> map_of (set_user g u z data) g' = map_of data g'"
  by (simp add: set_user_def map_of_map_entry)

lemma map_of_del_user_same:
  "map_of (del_user g u data) g =
     map_option (\<lambda>e. e\<lparr>timezones := AList.delete u (timezones e)\<rparr>) (map_of data g)"
  by (simp add: del_user_def map_of_map_entry split: option.split)

lemma map_of_del_user_other: "g' \<noteq> g \<Longrightarrow> map_of (del_user g u data) g' = map_of data g'"
  by (simp add: del_user_def map_of_map_entry)

lemma file_save_timezone:
  "timezone_file (save_timezone s c m z) =
     set_user (str_int c) (str_int m) z
       (if map_of (timezone_file s) (str_int c) = None
        then AList.update (str_int c) new_guild (timezone_file s) else timezone_file s)"
  by (simp add: save_timezone_def json_load_def json_dump_def acquire_def release_def Let_def)

lemma file_remove_timezone:
  "timezone_file (remove_timezone s c m) =
     (case map_of (timezone_file s) (str_int c) of
        None \<Rightarrow> timezone_file s
      | Some e \<Rightarrow>
          if map_of (timezones e) (str_int m) \<noteq> None
          then del_user (str_int c) (str_int m) (timezone_file s) else timezone_file s)"
  by (simp add: remove_timezone_def json_load_def json_dump_def acquire_def release_def Let_def
      split: option.split)

lemma get_timezone_user_result:
  "snd (get_timezone db s c (Some m)) =
     (case map_of (timezone_file s) (str_int c) of
        None \<Rightarrow> Inr NotSet
      | Some e \<Rightarrow>
          (case map_of (timezones e) (str_int m) of
             None \<Rightarrow> Inr NotSet
           | Some z \<Rightarrow>
               if z = [] then Inr NotSet
               else (case db z of None \<Rightarrow> Inr NotSet | Some tz \<Rightarrow> Inr (Zone tz))))"
  by (simp add: get_timezone_def json_load_def json_dump_def acquire_def release_def Let_def
      pytz_timezone_def split: option.split)

lemma get_timezone_user_file:
  "timezone_file (fst (get_timezone db s c (Some m))) =
     (case map_of (timezone_file s) (str_int c) of
        None \<Rightarrow> timezone_file s
      | Some e \<Rightarrow>
          (case map_of (timezones e) (str_int m) of
             None \<Rightarrow> timezone_file s
           | Some z \<Rightarrow>
               if z = [] then timezone_file s
               else (case db z of
                       None \<Rightarrow> del_user (str_int c) (str_int m) (timezone_file s)
                     | Some tz \<Rightarrow> timezone_file s)))"
  by (simp add: get_timezone_def json_load_def json_dump_def acquire_def release_def Let_def
      pytz_timezone_def split: option.split)

lemma stored_after_save:
  "\<exists>e. map_of (timezone_file (save_timezone s c m z)) (str_int c) = Some e
        \<and> map_of (timezones e) (str_int m) = Some z"
  by (cases "map_of (timezone_file s) (str_int c)")
     (simp_all add: file_save_timezone map_of_set_user_same update_conv')

lemma get_timezone_user_stored:
  "snd (get_timezone db s c (Some m)) =
     (case stored_timezone (timezone_file s) c m of
        None \<Rightarrow> Inr NotSet
      | Some z \<Rightarrow>
          if z = [] then Inr NotSet
          else (case db z of None \<Rightarrow> Inr NotSet | Some tz \<Rightarrow> Inr (Zone tz)))"
  by (simp add: get_timezone_user_result stored_timezone_def split: option.split)

lemma stored_timezone_save_same:
  "stored_timezone (timezone_file (save_timezone s c m z)) c m = Some z"
  using stored_after_save [of s c m z] by (auto simp: stored_timezone_def)

text \<open>
  Claim C1. For every identifier \<open>z\<close> that the timezone database knows (it is then not
  the empty string), every guild \<open>c\<close> and every member \<open>m\<close>: after
  \<^verbatim>\<open>save_timezone(c, m, z)\<close>, \<^verbatim>\<open>get_timezone(c, m)\<close> returns the zone of
  \<open>z\<close> and not \<^verbatim>\<open>None\<close>, and leaves the file as it is; this holds whatever the
  document held before, so also when an earlier \<^verbatim>\<open>save_timezone\<close> had stored another
  identifier \<open>z'\<close> for the same guild and member.
\<close>

theorem save_then_get_timezone:
  assumes "db z = Some tz" and "z \<noteq> []"
  shows "snd (get_timezone db (save_timezone s c m z) c (Some m)) = Inr (Zone tz)
       \<and> timezone_file (fst (get_timezone db (save_timezone s c m z) c (Some m)))
           = timezone_file (save_timezone s c m z)
       \<and> snd (get_timezone db (save_timezone (save_timezone s c m z') c m z) c (Some m))
           = Inr (Zone tz)"
proof -
  have r: "snd (get_timezone db (save_timezone t c m z) c (Some m)) = Inr (Zone tz)" for t
    using assms by (simp add: get_timezone_user_stored stored_timezone_save_same)
  obtain e where e: "map_of (timezone_file (save_timezone s c m z)) (str_int c) = Some e"
    and u: "map_of (timezones e) (str_int m) = Some z"
    using stored_after_save by blast
  have "timezone_file (fst (get_timezone db (save_timezone s c m z) c (Some m)))
          = timezone_file (save_timezone s c m z)"
    using assms by (simp add: get_timezone_user_file e u)
  with r show ?thesis by simp
qed

theorem save_then_get_timezone_witness:
  "[''utc'' \<mapsto> (0::nat)] ''utc'' = Some 0 \<and> ''utc'' \<noteq> []
   \<and> snd (get_timezone [''utc'' \<mapsto> (0::nat)]
            (save_timezone \<lparr>timezone_file = [], events = []\<rparr> 1 5 ''utc'') 1 (Some 5))
       = Inr (Zone 0)
   \<and> snd (get_timezone [''utc'' \<mapsto> (0::nat)]
            (save_timezone (save_timezone \<lparr>timezone_file = [], events = []\<rparr> 1 5 ''gmt'')
               1 5 ''utc'') 1 (Some 5))
       = Inr (Zone 0)"
  using save_then_get_timezone
    [where db = "[''utc'' \<mapsto> (0::nat)]" and z = "''utc''" and tz = 0
       and s = "\<lparr>timezone_file = [], events = []\<rparr>" and c = 1 and m = 5 and z' = "''gmt''"]
  by simp

lemma stored_timezone_save_other_user:
  assumes "m' \<noteq> m"
  shows "stored_timezone (timezone_file (save_timezone s c m z)) c m'
           = stored_timezone (timezone_file s) c m'"
proof -
  from assms have ne: "str_int m' \<noteq> str_int m" using str_int_inj by blast
  show ?thesis
    by (cases "map_of (timezone_file s) (str_int c)")
       (simp_all add: stored_timezone_def file_save_timezone map_of_set_user_same update_conv'
          ne new_guild_def)
qed

lemma map_of_save_other_guild:
  assumes "c' \<noteq> c"
  shows "map_of (timezone_file (save_timezone s c m z)) (str_int c')
           = map_of (timezone_file s) (str_int c')"
proof -
  from assms have ne: "str_int c' \<noteq> str_int c" using str_int_inj by blast
  then show ?thesis
    by (simp add: file_save_timezone map_of_set_user_other update_conv')
qed

lemma time_message_save_timezone:
  "stored_time_message (timezone_file (save_timezone s c m z)) c
     = stored_time_message (timezone_file s) c"
  by (cases "map_of (timezone_file s) (str_int c)")
     (simp_all add: stored_time_message_def file_save_timezone map_of_set_user_same update_conv'
        new_guild_def)

text \<open>
  Claim C9. \<^verbatim>\<open>save_timezone(c, m, z)\<close> changes only the identifier stored for member
  \<open>m\<close> in guild \<open>c\<close>: the identifier stored for any other member \<open>m'\<close> of
  \<open>c\<close>, the whole entry of any other guild \<open>c'\<close> and the persisted time message of
  \<open>c\<close> are what they were.
\<close>

theorem save_timezone_frame:
  "(m' \<noteq> m \<longrightarrow>
      stored_timezone (timezone_file (save_timezone s c m z)) c m'
        = stored_timezone (timezone_file s) c m')
   \<and> (c' \<noteq> c \<longrightarrow>
        map_of (timezone_file (save_timezone s c m z)) (str_int c')
          = map_of (timezone_file s) (str_int c'))
   \<and> stored_time_message (timezone_file (save_timezone s c m z)) c
       = stored_time_message (timezone_file s) c"
  using stored_timezone_save_other_user map_of_save_other_guild time_message_save_timezone
  by blast

theorem save_timezone_frame_witness:
  "(6::int) \<noteq> 5 \<and> (2::int) \<noteq> 1
   \<and> stored_timezone (timezone_file (save_timezone
         \<lparr>timezone_file =
            [(''1'', \<lparr>timezones = [(''6'', ''utc'')], time_message = Some (7, 8)\<rparr>),
             (''2'', \<lparr>timezones = [(''5'', ''gmt'')], time_message = None\<rparr>)],
          events = []\<rparr> 1 5 ''utc'')) 1 6
       = stored_timezone
           [(''1'', \<lparr>timezones = [(''6'', ''utc'')], time_message = Some (7, 8)\<rparr>),
            (''2'', \<lparr>timezones = [(''5'', ''gmt'')], time_message = None\<rparr>)] 1 6
   \<and> map_of (timezone_file (save_timezone
         \<lparr>timezone_file =
            [(''1'', \<lparr>timezones = [(''6'', ''utc'')], time_message = Some (7, 8)\<rparr>),
             (''2'', \<lparr>timezones = [(''5'', ''gmt'')], time_message = None\<rparr>)],
          events = []\<rparr> 1 5 ''utc'')) (str_int 2)
       = map_of
           [(''1'', \<lparr>timezones = [(''6'', ''utc'')], time_message = Some (7, 8)\<rparr>),
            (''2'', \<lparr>timezones = [(''5'', ''gmt'')], time_message = None\<rparr>)] (str_int 2)
   \<and> stored_time_message (timezone_file (save_timezone
         \<lparr>timezone_file =
            [(''1'', \<lparr>timezones = [(''6'', ''utc'')], time_message = Some (7, 8)\<rparr>),
             (''2'', \<lparr>timezones = [(''5'', ''gmt'')], time_message = None\<rparr>)],
          events = []\<rparr> 1 5 ''utc'')) 1
       = stored_time_message
           [(''1'', \<lparr>timezones = [(''6'', ''utc'')], time_message = Some (7, 8)\<rparr>),
            (''2'', \<lparr>timezones = [(''5'', ''gmt'')], time_message = None\<rparr>)] 1"
  using save_timezone_frame
    [where m' = 6 and m = 5 and c' = 2 and c = 1 and z = "''utc''"
       and s = "\<lparr>timezone_file =
            [(''1'', \<lparr>timezones = [(''6'', ''utc'')], time_message = Some (7, 8)\<rparr>),
             (''2'', \<lparr>timezones = [(''5'', ''gmt'')], time_message = None\<rparr>)],
          events = []\<rparr>"]
  by simp

lemma stored_timezone_remove:
  "stored_timezone (timezone_file (remove_timezone s c m)) c m = None"
  by (auto simp: stored_timezone_def file_remove_timezone map_of_del_user_same delete_conv'
      split: option.split)

lemma remove_timezone_absent:
  "stored_timezone (timezone_file s) c m = None \<Longrightarrow>
     timezone_file (remove_timezone s c m) = timezone_file s"
  by (auto simp: stored_timezone_def file_remove_timezone split: option.splits)

text \<open>
  Claim C7. After \<^verbatim>\<open>remove_timezone(c, m)\<close>, \<^verbatim>\<open>get_timezone(c, m)\<close> returns
  \<^verbatim>\<open>None\<close>; a second \<^verbatim>\<open>remove_timezone(c, m)\<close> leaves the file as the first
  one left it; and when nothing is stored for \<open>(c, m)\<close> the file is not changed. The
  function has no failing branch.
\<close>

theorem remove_timezone_then_get:
  "snd (get_timezone db (remove_timezone s c m) c (Some m)) = Inr NotSet
   \<and> timezone_file (remove_timezone (remove_timezone s c m) c m)
       = timezone_file (remove_timezone s c m)
   \<and> (stored_timezone (timezone_file s) c m = None \<longrightarrow>
        timezone_file (remove_timezone s c m) = timezone_file s)"
  by (simp add: get_timezone_user_stored stored_timezone_remove remove_timezone_absent)

theorem remove_timezone_then_get_witness:
  "stored_timezone (timezone_file \<lparr>timezone_file = [], events = []\<rparr>) 1 5 = None
   \<and> snd (get_timezone [''utc'' \<mapsto> (0::nat)]
            (remove_timezone \<lparr>timezone_file = [], events = []\<rparr> 1 5) 1 (Some 5)) = Inr NotSet
   \<and> timezone_file (remove_timezone \<lparr>timezone_file = [], events = []\<rparr> 1 5) = []"
  using remove_timezone_then_get
    [where db = "[''utc'' \<mapsto> (0::nat)]" and s = "\<lparr>timezone_file = [], events = []\<rparr>"
       and c = 1 and m = 5]
  by (simp add: stored_timezone_def)

section \<open>The commands\<close>

text \<open>
  Claim C10. \<^verbatim>\<open>time_message_clear\<close> looks only at the cache: for a guild with no
  entry in \<^verbatim>\<open>time_message_cache\<close> it replies that no persistent time message exists
  and changes nothing else, so the store, and with it a persisted time message of that
  guild, stays as it was.
\<close>

theorem time_message_clear_not_cached:
  assumes "map_of (time_message_cache cg) guild_id = None"
  shows "time_message_clear cg guild_id = cg\<lparr>outbox := outbox cg @ [Reply no_time_message_text]\<rparr>
       \<and> disk (time_message_clear cg guild_id) = disk cg
       \<and> stored_time_message (timezone_file (disk (time_message_clear cg guild_id))) guild_id
           = stored_time_message (timezone_file (disk cg)) guild_id"
  using assms by (simp add: time_message_clear_def)

theorem time_message_clear_not_cached_witness:
  "map_of (time_message_cache
      \<lparr>disk = \<lparr>timezone_file = [(''1'', \<lparr>timezones = [], time_message = Some (7, 8)\<rparr>)],
               events = []\<rparr>,
       time_message_cache = [], outbox = []\<rparr>) 1 = None
   \<and> outbox (time_message_clear
      \<lparr>disk = \<lparr>timezone_file = [(''1'', \<lparr>timezones = [], time_message = Some (7, 8)\<rparr>)],
               events = []\<rparr>,
       time_message_cache = [], outbox = []\<rparr> 1) = [Reply no_time_message_text]
   \<and> stored_time_message (timezone_file (disk (time_message_clear
      \<lparr>disk = \<lparr>timezone_file = [(''1'', \<lparr>timezones = [], time_message = Some (7, 8)\<rparr>)],
               events = []\<rparr>,
       time_message_cache = [], outbox = []\<rparr> 1))) 1 = Some (7, 8)"
  using time_message_clear_not_cached
    [where cg = "\<lparr>disk = \<lparr>timezone_file = [(''1'', \<lparr>timezones = [], time_message = Some (7, 8)\<rparr>)],
               events = []\<rparr>,
       time_message_cache = [], outbox = []\<rparr>" and guild_id = 1]
  by (simp add: stored_time_message_def str_int_small)

text \<open>
  \<^verbatim>\<open>save_timezone\<close> does not look at the timezone database: given an identifier the
  database does not know, it writes the record.
\<close>

theorem save_timezone_unknown_counterexample:
  "pytz_timezone [''utc'' \<mapsto> (0::nat)] ''mars/phobos'' = Inl UnknownTimeZoneError
   \<and> stored_timezone
        (timezone_file (save_timezone \<lparr>timezone_file = [], events = []\<rparr> 1 5 ''mars/phobos''))
        1 5 = Some ''mars/phobos''
   \<and> timezone_file (save_timezone \<lparr>timezone_file = [], events = []\<rparr> 1 5 ''mars/phobos'')
       = [(''1'', \<lparr>timezones = [(''5'', ''mars/phobos'')], time_message = None\<rparr>)]"
proof -
  have "pytz_timezone [''utc'' \<mapsto> (0::nat)] ''mars/phobos'' = Inl UnknownTimeZoneError"
    by (simp add: pytz_timezone_def)
  moreover have "stored_timezone
        (timezone_file (save_timezone \<lparr>timezone_file = [], events = []\<rparr> 1 5 ''mars/phobos''))
        1 5 = Some ''mars/phobos''"
    by (rule stored_timezone_save_same)
  moreover have "timezone_file (save_timezone \<lparr>timezone_file = [], events = []\<rparr> 1 5 ''mars/phobos'')
       = [(''1'', \<lparr>timezones = [(''5'', ''mars/phobos'')], time_message = None\<rparr>)]"
    by (simp add: file_save_timezone set_user_def new_guild_def str_int_small)
  ultimately show ?thesis by blast
qed

text \<open>
  Claim C2, as the code has it. The check against the timezone database is made by the
  command \<^verbatim>\<open>timezone_set\<close>, on the casefolded and stripped identifier: when the
  database does not know it, the command replies with the text that begins
  \<^verbatim>\<open>Invalid timezone.\<close> (or with the refusal for lack of permission) and leaves
  the store and the cache as they are; when the database knows it and the author may set
  the timezone of the target, the command stores the casefolded and stripped identifier
  for the target with \<^verbatim>\<open>save_timezone\<close>. \<^verbatim>\<open>save_timezone\<close> itself stores
  whatever identifier it is given. This holds whatever \<^verbatim>\<open>casefold\<close> and
  \<^verbatim>\<open>strip\<close> do to the text.
\<close>

theorem timezone_set_validates:
  "(tzdb env (casefold_strip timezone) = None \<longrightarrow>
      disk (timezone_set env casefold_strip cg ctx timezone user) = disk cg
      \<and> time_message_cache (timezone_set env casefold_strip cg ctx timezone user)
          = time_message_cache cg
      \<and> outbox (timezone_set env casefold_strip cg ctx timezone user) =
          outbox cg @
            [Reply (if (case user of None \<Rightarrow> True | Some u \<Rightarrow> manage_guild ctx \<or> author ctx = u)
                    then invalid_timezone_text else no_permission_text)])
   \<and> (tzdb env (casefold_strip timezone) \<noteq> None
        \<and> (case user of None \<Rightarrow> True | Some u \<Rightarrow> manage_guild ctx \<or> author ctx = u) \<longrightarrow>
      disk (timezone_set env casefold_strip cg ctx timezone user) =
        save_timezone (disk cg) (guild ctx) (case user of None \<Rightarrow> author ctx | Some u \<Rightarrow> u)
          (casefold_strip timezone))
   \<and> stored_timezone (timezone_file (save_timezone s c m z)) c m = Some z"
  by (auto simp: timezone_set_def pytz_timezone_def Let_def stored_timezone_save_same
      split: option.splits)

lemma strip_example: "strip '' mars/phobos '' = ''mars/phobos''" "strip '' utc '' = ''utc''"
  by code_simp+

theorem timezone_set_validates_witness:
  "tzdb \<lparr>tzdb = [''utc'' \<mapsto> (0::nat)], zone = (\<lambda>tz. ''UTC''), now_string = (\<lambda>tz. ''now''),
          naive_time = (\<lambda>tz. tz), strftime = (\<lambda>t. ''t''), timestamp = 0,
          get_guild = (\<lambda>g. True), send_messages = (\<lambda>g m. True)\<rparr>
        (strip '' mars/phobos '') = None
   \<and> disk (timezone_set
        \<lparr>tzdb = [''utc'' \<mapsto> (0::nat)], zone = (\<lambda>tz. ''UTC''), now_string = (\<lambda>tz. ''now''),
          naive_time = (\<lambda>tz. tz), strftime = (\<lambda>t. ''t''), timestamp = 0,
          get_guild = (\<lambda>g. True), send_messages = (\<lambda>g m. True)\<rparr> strip
        \<lparr>disk = \<lparr>timezone_file = [], events = []\<rparr>, time_message_cache = [], outbox = []\<rparr>
        \<lparr>guild = 1, author = 5, manage_guild = False\<rparr> '' mars/phobos '' None)
       = \<lparr>timezone_file = [], events = []\<rparr>
   \<and> outbox (timezone_set
        \<lparr>tzdb = [''utc'' \<mapsto> (0::nat)], zone = (\<lambda>tz. ''UTC''), now_string = (\<lambda>tz. ''now''),
          naive_time = (\<lambda>tz. tz), strftime = (\<lambda>t. ''t''), timestamp = 0,
          get_guild = (\<lambda>g. True), send_messages = (\<lambda>g m. True)\<rparr> strip
        \<lparr>disk = \<lparr>timezone_file = [], events = []\<rparr>, time_message_cache = [], outbox = []\<rparr>
        \<lparr>guild = 1, author = 5, manage_guild = False\<rparr> '' mars/phobos '' None)
       = [Reply invalid_timezone_text]
   \<and> tzdb \<lparr>tzdb = [''utc'' \<mapsto> (0::nat)], zone = (\<lambda>tz. ''UTC''), now_string = (\<lambda>tz. ''now''),
          naive_time = (\<lambda>tz. tz), strftime = (\<lambda>t. ''t''), timestamp = 0,
          get_guild = (\<lambda>g. True), send_messages = (\<lambda>g m. True)\<rparr>
        (strip '' utc '') \<noteq> None
   \<and> timezone_file (disk (timezone_set
        \<lparr>tzdb = [''utc'' \<mapsto> (0::nat)], zone = (\<lambda>tz. ''UTC''), now_string = (\<lambda>tz. ''now''),
          naive_time = (\<lambda>tz. tz), strftime = (\<lambda>t. ''t''), timestamp = 0,
          get_guild = (\<lambda>g. True), send_messages = (\<lambda>g m. True)\<rparr> strip
        \<lparr>disk = \<lparr>timezone_file = [], events = []\<rparr>, time_message_cache = [], outbox = []\<rparr>
        \<lparr>guild = 1, author = 5, manage_guild = False\<rparr> '' utc '' None))
       = [(''1'', \<lparr>timezones = [(''5'', ''utc'')], time_message = None\<rparr>)]"
  using timezone_set_validates
    [where env = "\<lparr>tzdb = [''utc'' \<mapsto> (0::nat)], zone = (\<lambda>tz. ''UTC''), now_string = (\<lambda>tz. ''now''),
          naive_time = (\<lambda>tz. tz), strftime = (\<lambda>t. ''t''), timestamp = 0,
          get_guild = (\<lambda>g. True), send_messages = (\<lambda>g m. True)\<rparr>"
       and casefold_strip = strip
       and cg = "\<lparr>disk = \<lparr>timezone_file = [], events = []\<rparr>, time_message_cache = [], outbox = []\<rparr>"
       and ctx = "\<lparr>guild = 1, author = 5, manage_guild = False\<rparr>"
       and timezone = "'' mars/phobos ''" and user = None]
    timezone_set_validates
    [where env = "\<lparr>tzdb = [''utc'' \<mapsto> (0::nat)], zone = (\<lambda>tz. ''UTC''), now_string = (\<lambda>tz. ''now''),
          naive_time = (\<lambda>tz. tz), strftime = (\<lambda>t. ''t''), timestamp = 0,
          get_guild = (\<lambda>g. True), send_messages = (\<lambda>g m. True)\<rparr>"
       and casefold_strip = strip
       and cg = "\<lparr>disk = \<lparr>timezone_file = [], events = []\<rparr>, time_message_cache = [], outbox = []\<rparr>"
       and ctx = "\<lparr>guild = 1, author = 5, manage_guild = False\<rparr>"
       and timezone = "'' utc ''" and user = None]
  by (simp add: strip_example file_save_timezone set_user_def new_guild_def str_int_small)

section \<open>The lock around the file\<close>









section \<open>Reading all timezones of a guild\<close>

text \<open>
  Claim C3 at a guild with one stale identifier among valid ones:
  \<^verbatim>\<open>get_timezone(guild_id)\<close> deletes the stale entry from the dictionary it is
  iterating over, writes the document, and the next step of the loop raises
  \<^verbatim>\<open>RuntimeError\<close> to the caller.
\<close>

theorem get_all_timezones_raises:
  "get_timezone [''utc'' \<mapsto> (0::nat)]
      \<lparr>timezone_file =
         [(''1'', \<lparr>timezones = [(''5'', ''utc''), (''6'', ''mars/phobos''), (''7'', ''utc'')],
                    time_message = None\<rparr>)],
       events = []\<rparr> 1 None
     = (\<lparr>timezone_file =
           [(''1'', \<lparr>timezones = [(''5'', ''utc''), (''7'', ''utc'')], time_message = None\<rparr>)],
         events = [Acquire, Load, Release, Acquire, Dump, Release]\<rparr>,
        Inl RuntimeError)"
  by code_simp

section \<open>The text of the display\<close>

lemma rstrip_Cons: "\<not> is_space c \<Longrightarrow> rstrip (c # s) = c # rstrip s"
  by (simp add: rstrip_def dropWhile_append)

lemma strip_Cons: "\<not> is_space c \<Longrightarrow> strip (c # s) = c # rstrip s"
  by (simp add: strip_def lstrip_def rstrip_Cons)

lemma star_not_space: "\<not> is_space CHR ''*''"
  by (simp add: is_space_def)

lemma rstrip_no_timezone_text: "rstrip no_timezone_text = no_timezone_text"
  by code_simp

lemma group_users_not_Nil: "xs \<noteq> [] \<or> acc \<noteq> [] \<Longrightarrow> group_users naive xs acc \<noteq> []"
  by (induction naive xs acc rule: group_users.induct)
     (auto split: option.split)

lemma users_by_timezones_sorted_not_Nil:
  "tzs \<noteq> [] \<Longrightarrow> users_by_timezones_sorted naive tzs \<noteq> []"
proof -
  assume "tzs \<noteq> []"
  then have "group_users naive tzs [] \<noteq> []" by (simp add: group_users_not_Nil)
  then have "length (sort_key (\<lambda>x. (fst x, length (snd x))) (group_users naive tzs [])) \<noteq> 0"
    by simp
  then show ?thesis unfolding users_by_timezones_sorted_def by fastforce
qed

lemma groups_text_hd:
  "gs \<noteq> [] \<Longrightarrow> \<exists>r. concat (map (group_text fmt) gs) = CHR ''*'' # r"
  by (cases gs) (auto simp: group_text_def)

lemma time_text_nonempty:
  assumes "tzs \<noteq> []"
  shows "\<exists>r. time_text naive fmt tzs = CHR ''*'' # r"
proof -
  obtain r where "concat (map (group_text fmt) (users_by_timezones_sorted naive tzs)) = CHR ''*'' # r"
    using groups_text_hd [OF users_by_timezones_sorted_not_Nil [OF assms]] by blast
  with assms show ?thesis by (simp add: time_text_def rstrip_Cons star_not_space)
qed

lemma time_text_empty: "time_text naive fmt [] = no_timezone_text"
  by (simp add: time_text_def rstrip_no_timezone_text)

lemma no_timezone_text_hd: "no_timezone_text = CHR ''N'' # tl no_timezone_text"
  by (simp add: no_timezone_text_def)

lemma N_not_space: "\<not> is_space CHR ''N''"
  by (simp add: is_space_def)

lemma description_empty_hd:
  "\<exists>r. description (embed_of env b []) = CHR ''N'' # r"
  by (cases b)
     (simp_all add: embed_of_def Let_def time_text_empty no_timezone_text_def strip_Cons
        N_not_space)

lemma description_nonempty_hd:
  assumes "tzs \<noteq> []"
  shows "\<exists>r. description (embed_of env b tzs) = CHR ''*'' # r"
proof -
  obtain r where "time_text (naive_time env) (strftime env) tzs = CHR ''*'' # r"
    using time_text_nonempty [OF assms] by blast
  then show ?thesis
    by (cases b) (simp_all add: embed_of_def Let_def strip_Cons star_not_space)
qed

lemma get_all_no_records:
  assumes "guild_timezones (timezone_file s) c = []"
  shows "snd (get_timezone db s c None) = Inr (Zones [])"
    and "timezone_file (fst (get_timezone db s c None)) = timezone_file s"
  using assms
  by (auto simp: get_timezone_def guild_timezones_def json_load_def acquire_def release_def
      Let_def get_all_loop.simps split: option.splits)

text \<open>
  Claim C8. For the empty mapping, and for no other, the text of the display is the
  sentence \<^verbatim>\<open>No one has set their timezone.\<close> (and the embed is the embed of the
  empty mapping); and \<^verbatim>\<open>get_timezone(guild_id)\<close> on a guild with no stored
  timezones returns the empty dictionary, raises nothing and leaves the file as it is.
\<close>

theorem empty_mapping_sentinel:
  "time_text naive fmt [] = no_timezone_text
   \<and> (time_text naive fmt tzs = no_timezone_text \<longleftrightarrow> tzs = [])
   \<and> (embed_of env b tzs = embed_of env b [] \<longleftrightarrow> tzs = [])
   \<and> (guild_timezones (timezone_file s) c = [] \<longrightarrow>
        snd (get_timezone db s c None) = Inr (Zones [])
        \<and> timezone_file (fst (get_timezone db s c None)) = timezone_file s)"
proof -
  have a: "time_text naive fmt tzs = no_timezone_text \<longleftrightarrow> tzs = []"
  proof (cases "tzs = []")
    case True
    then show ?thesis by (simp add: time_text_empty)
  next
    case False
    then obtain r where "time_text naive fmt tzs = CHR ''*'' # r"
      using time_text_nonempty by blast
    with False show ?thesis by (simp add: no_timezone_text_def)
  qed
  have b: "embed_of env b tzs = embed_of env b [] \<longleftrightarrow> tzs = []"
  proof (cases "tzs = []")
    case True
    then show ?thesis by simp
  next
    case False
    obtain r where r: "description (embed_of env b tzs) = CHR ''*'' # r"
      using description_nonempty_hd [OF False] by blast
    obtain r' where r': "description (embed_of env b []) = CHR ''N'' # r'"
      using description_empty_hd by blast
    from r r' have "embed_of env b tzs \<noteq> embed_of env b []" by auto
    with False show ?thesis by simp
  qed
  from a b show ?thesis by (simp add: time_text_empty get_all_no_records)
qed

theorem empty_mapping_sentinel_witness:
  "guild_timezones (timezone_file
      \<lparr>timezone_file = [(''1'', \<lparr>timezones = [], time_message = Some (7, 8)\<rparr>)],
       events = []\<rparr>) 1 = []
   \<and> snd (get_timezone [''utc'' \<mapsto> (0::nat)]
      \<lparr>timezone_file = [(''1'', \<lparr>timezones = [], time_message = Some (7, 8)\<rparr>)],
       events = []\<rparr> 1 None) = Inr (Zones [])
   \<and> time_text (\<lambda>tz::nat. tz) (\<lambda>t. ''t'') [] = no_timezone_text"
  using empty_mapping_sentinel
    [where s = "\<lparr>timezone_file = [(''1'', \<lparr>timezones = [], time_message = Some (7, 8)\<rparr>)],
       events = []\<rparr>" and c = 1 and db = "[''utc'' \<mapsto> (0::nat)]"
       and naive = "\<lambda>tz::nat. tz" and fmt = "\<lambda>t::nat. ''t''" and tzs = "[]" and b = True
       and env = "\<lparr>tzdb = [''utc'' \<mapsto> (0::nat)], zone = (\<lambda>tz. ''UTC''),
          now_string = (\<lambda>tz. ''now''), naive_time = (\<lambda>tz. tz), strftime = (\<lambda>t::nat. ''t''),
          timestamp = 0, get_guild = (\<lambda>g. True), send_messages = (\<lambda>g m. True)\<rparr>"]
  by (simp add: guild_timezones_def str_int_small)

section \<open>Reading the decimal keys back\<close>

text \<open>
  \<^verbatim>\<open>int(str(i))\<close> is \<open>i\<close> for every integer of at most
  \<^verbatim>\<open>sys.int_max_str_digits\<close> digits, as the ids of the platform are.
\<close>

lemma is_digit_digit_char: "d < 10 \<Longrightarrow> is_digit (digit_char d)"
  by (simp add: is_digit_def of_char_digit)

lemma digit_not_int_space: "is_digit c \<Longrightarrow> \<not> int_space c"
  by (auto simp: is_digit_def int_space_def Let_def)

lemma digit_not_underscore: "is_digit c \<Longrightarrow> c \<noteq> CHR ''_''"
  by (auto simp: is_digit_def)

lemma str_nat_digits: "\<forall>c \<in> set (str_nat n). is_digit c"
proof (induction n rule: str_nat.induct)
  case (1 n)
  show ?case
  proof (cases "n < 10")
    case True
    then show ?thesis by (simp add: str_nat_small is_digit_digit_char)
  next
    case False
    with 1 show ?thesis by (simp add: str_nat_big is_digit_digit_char)
  qed
qed

lemma digits_value_snoc: "digits_value (s @ [c]) = 10 * digits_value s + (of_char c - 48)"
  by (simp add: digits_value_def)

lemma digits_value_str_nat: "digits_value (str_nat n) = n"
proof (induction n rule: str_nat.induct)
  case (1 n)
  show ?case
  proof (cases "n < 10")
    case True
    then show ?thesis by (simp add: str_nat_small digits_value_def of_char_digit)
  next
    case False
    with 1 have "digits_value (str_nat (n div 10)) = n div 10" by simp
    with False show ?thesis
      by (simp add: str_nat_big digits_value_snoc of_char_digit)
  qed
qed

lemma length_str_nat: "0 < k \<Longrightarrow> n < 10 ^ k \<Longrightarrow> length (str_nat n) \<le> k"
proof (induction n arbitrary: k rule: str_nat.induct)
  case (1 n)
  show ?case
  proof (cases "n < 10")
    case True
    with "1.prems" show ?thesis by (simp add: str_nat_small)
  next
    case False
    obtain j where k: "k = Suc j" using "1.prems"(1) by (cases k) auto
    from False "1.prems"(2) have j: "0 < j" unfolding k by (cases j) auto
    from "1.prems"(2) have "n div 10 < 10 ^ j" unfolding k by (simp add: less_mult_imp_div_less)
    from "1.IH" [OF False j this] have "length (str_nat (n div 10)) \<le> j" .
    with False show ?thesis by (simp add: str_nat_big k)
  qed
qed

lemma digit_groups_digits:
  "\<forall>c \<in> set s. is_digit c \<Longrightarrow> digit_groups prev s = (prev \<or> s \<noteq> [])"
  by (induction s arbitrary: prev) auto

lemma filter_digits: "\<forall>c \<in> set s. is_digit c \<Longrightarrow> filter (\<lambda>c. c \<noteq> CHR ''_'') s = s"
  by (induction s) (auto simp: digit_not_underscore)

lemma int_strip_no_space: "\<forall>c \<in> set s. \<not> int_space c \<Longrightarrow> int_strip s = s"
proof -
  assume a: "\<forall>c \<in> set s. \<not> int_space c"
  then have "dropWhile int_space s = s" by (cases s) auto
  moreover from a have "dropWhile int_space (rev s) = rev s" by (cases "rev s") auto
  ultimately show ?thesis by (simp add: int_strip_def)
qed

lemma py_int_str_nat:
  assumes "n < 10 ^ int_max_str_digits"
  shows "py_int (str_nat n) = Inr (int n)"
proof -
  have d: "\<forall>c \<in> set (str_nat n). is_digit c" by (rule str_nat_digits)
  then have s: "int_strip (str_nat n) = str_nat n"
    by (simp add: int_strip_no_space digit_not_int_space)
  have "0 < int_max_str_digits" by (simp add: int_max_str_digits_def)
  from length_str_nat [OF this assms] have l: "length (str_nat n) \<le> int_max_str_digits" .
  obtain c r where cr: "str_nat n = c # r" using str_nat_not_Nil by (cases "str_nat n") auto
  with d have c: "is_digit c" by simp
  then have "c \<noteq> CHR ''-''" "c \<noteq> CHR ''+''" by (auto simp: is_digit_def)
  with cr have "py_int (str_nat n) =
      (if digit_groups False (str_nat n)
            \<and> length (filter (\<lambda>c. c \<noteq> CHR ''_'') (str_nat n)) \<le> int_max_str_digits
       then Inr (int (digits_value (filter (\<lambda>c. c \<noteq> CHR ''_'') (str_nat n)))) else Inl ValueError)"
    unfolding py_int_def s by (simp add: Let_def)
  with d l show ?thesis
    by (simp add: digit_groups_digits filter_digits digits_value_str_nat str_nat_not_Nil)
qed

lemma py_int_minus_str_nat:
  assumes "n < 10 ^ int_max_str_digits"
  shows "py_int (CHR ''-'' # str_nat n) = Inr (- int n)"
proof -
  have d: "\<forall>c \<in> set (str_nat n). is_digit c" by (rule str_nat_digits)
  have "\<not> int_space CHR ''-''" by (simp add: int_space_def)
  with d have s: "int_strip (CHR ''-'' # str_nat n) = CHR ''-'' # str_nat n"
    by (simp add: int_strip_no_space digit_not_int_space)
  have "0 < int_max_str_digits" by (simp add: int_max_str_digits_def)
  from length_str_nat [OF this assms] have l: "length (str_nat n) \<le> int_max_str_digits" .
  have "py_int (CHR ''-'' # str_nat n) =
      (if digit_groups False (str_nat n)
            \<and> length (filter (\<lambda>c. c \<noteq> CHR ''_'') (str_nat n)) \<le> int_max_str_digits
       then Inr (- 1 * int (digits_value (filter (\<lambda>c. c \<noteq> CHR ''_'') (str_nat n))))
       else Inl ValueError)"
    unfolding py_int_def s by (simp add: Let_def)
  with d l show ?thesis
    by (simp add: digit_groups_digits filter_digits digits_value_str_nat str_nat_not_Nil)
qed

lemma py_int_str_int:
  assumes "\<bar>i\<bar> < 10 ^ int_max_str_digits"
  shows "py_int (str_int i) = Inr i"
proof (cases "i < 0")
  case True
  with assms have "nat (- i) < 10 ^ int_max_str_digits" by (simp add: nat_less_iff)
  from py_int_minus_str_nat [OF this] True show ?thesis by (simp add: str_int_def)
next
  case False
  with assms have "nat i < 10 ^ int_max_str_digits" by (simp add: nat_less_iff)
  from py_int_str_nat [OF this] False show ?thesis by (simp add: str_int_def)
qed

text \<open>
  \<^verbatim>\<open>int\<close> skips a space and reads an underscore between digits, and refuses a
  separator that \<^verbatim>\<open>str.strip\<close> would remove.
\<close>

lemma py_int_examples:
  "py_int ''5'' = Inr 5"
  "py_int '' 1_0 '' = Inr 10"
  "py_int ''-7'' = Inr (- 7)"
  "py_int [CHR 0x1F, CHR ''7''] = Inl ValueError"
  "py_int ''5_'' = Inl ValueError"
  "py_int '''' = Inl ValueError"
  by code_simp+

section \<open>The grouping of the display\<close>

lemma set_update_distinct:
  "distinct (map fst al) \<Longrightarrow>
     set (AList.update k v al) = insert (k, v) {p \<in> set al. fst p \<noteq> k}"
  by (induction al) (auto simp: rev_image_eqI)

lemma map_of_None_keys: "map_of al k = None \<Longrightarrow> {p \<in> set al. fst p \<noteq> k} = set al"
  by (auto simp: map_of_eq_None_iff rev_image_eqI)

lemma map_of_Some_split:
  assumes "distinct (map fst al)" "map_of al k = Some v"
  shows "set al = insert (k, v) {p \<in> set al. fst p \<noteq> k}"
  using assms by (auto dest: map_of_SomeD simp: eq_key_imp_eq_value)

lemma add_new_inv:
  assumes "distinct (map fst acc)" "keyed naive acc" "map_of acc (naive tz) = None"
  shows "distinct (map fst (AList.update (naive tz) [(u, tz)] acc))"
    and "keyed naive (AList.update (naive tz) [(u, tz)] acc)"
    and "members (AList.update (naive tz) [(u, tz)] acc) = insert (u, tz) (members acc)"
proof -
  show "distinct (map fst (AList.update (naive tz) [(u, tz)] acc))"
    using assms(1) by (rule distinct_update)
  have s: "set (AList.update (naive tz) [(u, tz)] acc) = insert (naive tz, [(u, tz)]) (set acc)"
    using assms(1,3) by (simp add: set_update_distinct map_of_None_keys)
  show "keyed naive (AList.update (naive tz) [(u, tz)] acc)"
    using assms(2) by (auto simp: keyed_def s)
  show "members (AList.update (naive tz) [(u, tz)] acc) = insert (u, tz) (members acc)"
    by (auto simp: members_def s)
qed

lemma add_old_inv:
  assumes "distinct (map fst acc)" "keyed naive acc" "map_of acc (naive tz) = Some us"
  shows "distinct (map fst (AList.update (naive tz) (us @ [(u, tz)]) acc))"
    and "keyed naive (AList.update (naive tz) (us @ [(u, tz)]) acc)"
    and "members (AList.update (naive tz) (us @ [(u, tz)]) acc) = insert (u, tz) (members acc)"
proof -
  show "distinct (map fst (AList.update (naive tz) (us @ [(u, tz)]) acc))"
    using assms(1) by (rule distinct_update)
  have s: "set (AList.update (naive tz) (us @ [(u, tz)]) acc)
             = insert (naive tz, us @ [(u, tz)]) {p \<in> set acc. fst p \<noteq> naive tz}"
    using assms(1) by (simp add: set_update_distinct)
  have t: "set acc = insert (naive tz, us) {p \<in> set acc. fst p \<noteq> naive tz}"
    using assms(1,3) by (rule map_of_Some_split)
  have us: "(naive tz, us) \<in> set acc" using assms(3) by (rule map_of_SomeD)
  show "keyed naive (AList.update (naive tz) (us @ [(u, tz)]) acc)"
    using assms(2) us by (fastforce simp: keyed_def s)
  have "members (AList.update (naive tz) (us @ [(u, tz)]) acc)
          = insert (u, tz) (set us \<union> (\<Union>g \<in> {p \<in> set acc. fst p \<noteq> naive tz}. set (snd g)))"
    by (auto simp: members_def s)
  also have "set us \<union> (\<Union>g \<in> {p \<in> set acc. fst p \<noteq> naive tz}. set (snd g)) = members acc"
    unfolding members_def by (subst (2) t) auto
  finally show "members (AList.update (naive tz) (us @ [(u, tz)]) acc) = insert (u, tz) (members acc)" .
qed

lemma group_users_inv:
  assumes "distinct (map fst acc)" "keyed naive acc"
  shows "distinct (map fst (group_users naive xs acc))
       \<and> keyed naive (group_users naive xs acc)
       \<and> members (group_users naive xs acc) = set xs \<union> members acc"
  using assms
proof (induction naive xs acc rule: group_users.induct)
  case (1 naive acc)
  then show ?case by simp
next
  case (2 naive user_id tz rest acc)
  show ?case
  proof (cases "map_of acc (naive tz)")
    case None
    note n = add_new_inv [OF "2.prems" None, of user_id]
    from "2.IH"(1) [OF None n(1) n(2)] None n(3) show ?thesis by simp
  next
    case (Some us)
    note n = add_old_inv [OF "2.prems" Some, of user_id]
    from "2.IH"(2) [OF Some n(1) n(2)] Some n(3) show ?thesis by simp
  qed
qed

lemma grouped_inv:
  fixes naive :: "'tz \<Rightarrow> 'dt::linorder"
  shows "distinct (map fst (users_by_timezones_sorted naive tzs))"
    and "keyed naive (users_by_timezones_sorted naive tzs)"
    and "members (users_by_timezones_sorted naive tzs) = set tzs"
proof -
  let ?G = "group_users naive tzs []"
  have inv: "distinct (map fst ?G) \<and> keyed naive ?G \<and> members ?G = set tzs"
    using group_users_inv [of "[]" naive tzs] by (simp add: keyed_def members_def)
  have s: "set (users_by_timezones_sorted naive tzs) = set ?G"
    by (simp add: users_by_timezones_sorted_def)
  from inv have "distinct ?G \<and> inj_on fst (set ?G)" by (simp add: distinct_map)
  then have "distinct (users_by_timezones_sorted naive tzs)
      \<and> inj_on fst (set (users_by_timezones_sorted naive tzs))"
    by (simp add: users_by_timezones_sorted_def)
  then show "distinct (map fst (users_by_timezones_sorted naive tzs))"
    by (simp add: distinct_map)
  show "keyed naive (users_by_timezones_sorted naive tzs)"
    using inv by (simp add: keyed_def s)
  show "members (users_by_timezones_sorted naive tzs) = set tzs"
    using inv by (simp add: members_def s)
qed

lemma same_group_iff:
  fixes naive :: "'tz \<Rightarrow> 'dt::linorder"
  assumes "(u, tz) \<in> set tzs" "(v, tz') \<in> set tzs"
  shows "(\<exists>g \<in> set (users_by_timezones_sorted naive tzs).
            (u, tz) \<in> set (snd g) \<and> (v, tz') \<in> set (snd g))
         \<longleftrightarrow> naive tz = naive tz'"
proof
  assume "\<exists>g \<in> set (users_by_timezones_sorted naive tzs).
            (u, tz) \<in> set (snd g) \<and> (v, tz') \<in> set (snd g)"
  then obtain k us where g: "(k, us) \<in> set (users_by_timezones_sorted naive tzs)"
    and "(u, tz) \<in> set us" "(v, tz') \<in> set us" by auto
  with grouped_inv(2) [of naive tzs] have "naive tz = k" "naive tz' = k"
    by (auto simp: keyed_def)
  then show "naive tz = naive tz'" by simp
next
  assume e: "naive tz = naive tz'"
  from assms grouped_inv(3) [of naive tzs]
  obtain k us k' us' where g: "(k, us) \<in> set (users_by_timezones_sorted naive tzs)" "(u, tz) \<in> set us"
    and g': "(k', us') \<in> set (users_by_timezones_sorted naive tzs)" "(v, tz') \<in> set us'"
    unfolding members_def by (smt (verit) UN_E prod.collapse)
  with grouped_inv(2) [of naive tzs] have "naive tz = k" "naive tz' = k'"
    by (auto simp: keyed_def)
  with e have "k = k'" by simp
  with g g' grouped_inv(1) [of naive tzs] have "us = us'"
    by (metis eq_key_imp_eq_value)
  with g g' show "\<exists>g \<in> set (users_by_timezones_sorted naive tzs).
            (u, tz) \<in> set (snd g) \<and> (v, tz') \<in> set (snd g)" by force
qed

lemma sorted_fst_of_pairs:
  fixes xs :: "('a::linorder \<times> 'b::linorder) list"
  shows "sorted xs \<Longrightarrow> sorted (map fst xs)"
  by (induction xs) (auto simp: less_eq_prod_def)

lemma groups_sorted:
  fixes naive :: "'tz \<Rightarrow> 'dt::linorder"
  shows "sorted (map (\<lambda>g. (fst g, length (snd g))) (users_by_timezones_sorted naive tzs))"
  unfolding users_by_timezones_sorted_def by (rule sorted_sort_key)

lemma groups_strictly_ascending:
  fixes naive :: "'tz \<Rightarrow> 'dt::linorder"
  shows "sorted_wrt (<) (map fst (users_by_timezones_sorted naive tzs))"
proof -
  have "sorted (map fst (map (\<lambda>g. (fst g, length (snd g))) (users_by_timezones_sorted naive tzs)))"
    using groups_sorted by (rule sorted_fst_of_pairs)
  then have "sorted (map fst (users_by_timezones_sorted naive tzs))"
    by (simp add: comp_def)
  with grouped_inv(1) [of naive tzs] show ?thesis by (simp add: strict_sorted_iff)
qed

lemma set_update_subset: "set (AList.update k v al) \<subseteq> insert (k, v) (set al)"
  by (induction al) auto

lemma group_users_nonempty:
  "\<forall>g \<in> set acc. snd g \<noteq> [] \<Longrightarrow> \<forall>g \<in> set (group_users naive xs acc). snd g \<noteq> []"
proof (induction naive xs acc rule: group_users.induct)
  case (1 naive acc)
  then show ?case by simp
next
  case (2 naive user_id tz rest acc)
  show ?case
  proof (cases "map_of acc (naive tz)")
    case None
    have "\<forall>g \<in> set (AList.update (naive tz) [(user_id, tz)] acc). snd g \<noteq> []"
      using "2.prems" set_update_subset [of "naive tz" "[(user_id, tz)]" acc] by auto
    from "2.IH"(1) [OF None this] None show ?thesis by simp
  next
    case (Some us)
    have "\<forall>g \<in> set (AList.update (naive tz) (us @ [(user_id, tz)]) acc). snd g \<noteq> []"
      using "2.prems" set_update_subset [of "naive tz" "us @ [(user_id, tz)]" acc] by auto
    from "2.IH"(2) [OF Some this] Some show ?thesis by simp
  qed
qed

lemma groups_nonempty:
  fixes naive :: "'tz \<Rightarrow> 'dt::linorder"
  shows "\<forall>g \<in> set (users_by_timezones_sorted naive tzs). snd g \<noteq> []"
  using group_users_nonempty [of "[]" naive tzs] by (simp add: users_by_timezones_sorted_def)

lemma groups_keyed:
  fixes naive :: "'tz \<Rightarrow> 'dt::linorder"
  assumes "g \<in> set (users_by_timezones_sorted naive tzs)" "(u, tz) \<in> set (snd g)"
  shows "(u, tz) \<in> set tzs" "naive tz = fst g"
proof -
  from assms have "(u, tz) \<in> members (users_by_timezones_sorted naive tzs)"
    unfolding members_def by blast
  then show "(u, tz) \<in> set tzs" by (simp add: grouped_inv(3))
  from grouped_inv(2) [of naive tzs] assms show "naive tz = fst g"
    unfolding keyed_def by (cases g) auto
qed

lemma member_grouped:
  fixes naive :: "'tz \<Rightarrow> 'dt::linorder"
  assumes "(u, tz) \<in> set tzs"
  shows "\<exists>g \<in> set (users_by_timezones_sorted naive tzs). fst g = naive tz \<and> (u, tz) \<in> set (snd g)"
proof -
  from assms have "(u, tz) \<in> members (users_by_timezones_sorted naive tzs)"
    by (simp add: grouped_inv(3))
  then obtain g where g: "g \<in> set (users_by_timezones_sorted naive tzs)" "(u, tz) \<in> set (snd g)"
    unfolding members_def by blast
  from groups_keyed(2) [OF this] g show ?thesis by auto
qed

text \<open>
  Claim C4. For every mapping of members to zones and every instant (the function
  \<open>naive\<close> gives the naive local date-time of a zone at that instant): every group of
  \<^verbatim>\<open>users_by_timezones_sorted\<close> has at least one member, its members are members
  of the mapping and its key is the naive date-time of the zone of each of them; every
  member of the mapping stands in the group whose key is the naive date-time of its
  zone; two members of the mapping stand in the same group exactly when the naive
  date-times of their zones are equal, whatever the zones are; the groups are in
  ascending order of the pair of date-time and group size, and their date-times are
  strictly ascending.
\<close>

theorem display_grouping:
  fixes naive :: "'tz \<Rightarrow> 'dt::linorder"
  shows "(\<forall>g \<in> set (users_by_timezones_sorted naive tzs).
            snd g \<noteq> [] \<and> (\<forall>(w, z) \<in> set (snd g). (w, z) \<in> set tzs \<and> naive z = fst g))
       \<and> (\<forall>(w, z) \<in> set tzs.
            \<exists>g \<in> set (users_by_timezones_sorted naive tzs). fst g = naive z \<and> (w, z) \<in> set (snd g))
       \<and> ((u, tz) \<in> set tzs \<and> (v, tz') \<in> set tzs \<longrightarrow>
            ((\<exists>g \<in> set (users_by_timezones_sorted naive tzs).
                (u, tz) \<in> set (snd g) \<and> (v, tz') \<in> set (snd g))
             \<longleftrightarrow> naive tz = naive tz'))
       \<and> sorted (map (\<lambda>g. (fst g, length (snd g))) (users_by_timezones_sorted naive tzs))
       \<and> sorted_wrt (<) (map fst (users_by_timezones_sorted naive tzs))"
proof -
  have a: "\<forall>g \<in> set (users_by_timezones_sorted naive tzs).
            snd g \<noteq> [] \<and> (\<forall>(w, z) \<in> set (snd g). (w, z) \<in> set tzs \<and> naive z = fst g)"
    using groups_nonempty [of naive tzs] groups_keyed [of _ naive tzs] by blast
  have b: "\<forall>(w, z) \<in> set tzs.
            \<exists>g \<in> set (users_by_timezones_sorted naive tzs). fst g = naive z \<and> (w, z) \<in> set (snd g)"
    using member_grouped [of _ _ tzs naive] by blast
  from a b same_group_iff [of u tz tzs v tz' naive] groups_sorted [of naive tzs]
    groups_strictly_ascending [of naive tzs]
  show ?thesis by blast
qed

lemma grouping_example:
  "users_by_timezones_sorted (\<lambda>tz::nat. tz mod 24) [(1, 29), (2, 0), (3, 24)]
     = [(0, [(2, 0), (3, 24)]), (5, [(1, 29)])]"
  by code_simp

theorem display_grouping_witness:
  "(2, 0) \<in> set [(1, 29), (2, 0), (3, 24::nat)] \<and> (3, 24) \<in> set [(1, 29), (2, 0), (3, 24::nat)]
   \<and> (0::nat) mod 24 = 24 mod 24
   \<and> (0, [(2, 0), (3, 24)])
        \<in> set (users_by_timezones_sorted (\<lambda>tz::nat. tz mod 24) [(1, 29), (2, 0), (3, 24)])
   \<and> snd (0::nat, [(2::int, 0::nat), (3, 24)]) \<noteq> []
   \<and> (0::nat) mod 24 = fst (0::nat, [(2::int, 0::nat), (3, 24)])
   \<and> (24::nat) mod 24 = fst (0::nat, [(2::int, 0::nat), (3, 24)])
   \<and> (\<exists>g \<in> set (users_by_timezones_sorted (\<lambda>tz::nat. tz mod 24) [(1, 29), (2, 0), (3, 24)]).
          (2, 0) \<in> set (snd g) \<and> (3, 24) \<in> set (snd g))
   \<and> (\<exists>g \<in> set (users_by_timezones_sorted (\<lambda>tz::nat. tz mod 24) [(1, 29), (2, 0), (3, 24)]).
          fst g = 29 mod 24 \<and> (1, 29) \<in> set (snd g))
   \<and> sorted_wrt (<) (map fst
        (users_by_timezones_sorted (\<lambda>tz::nat. tz mod 24) [(1, 29), (2, 0), (3, 24)]))"
  using display_grouping
    [where u = 2 and tz = 0 and v = 3 and tz' = 24 and tzs = "[(1, 29), (2, 0), (3, 24::nat)]"
       and naive = "\<lambda>tz::nat. tz mod 24"]
  by (simp add: grouping_example)

section \<open>The loop over the stored timezones of a guild\<close>

lemma get_all_loop_Nil:
  "get_all_loop db g used [] s data tzs =
     (if (case map_of data g of None \<Rightarrow> 0 | Some e \<Rightarrow> length (timezones e)) \<noteq> used
      then (s, Inl RuntimeError) else (s, Inr (Zones tzs)))"
  by (subst get_all_loop.simps) simp

lemma get_all_loop_Cons:
  "get_all_loop db g used ((u, z) # rest) s data tzs =
     (if (case map_of data g of None \<Rightarrow> 0 | Some e \<Rightarrow> length (timezones e)) \<noteq> used
      then (s, Inl RuntimeError)
      else
        (case pytz_timezone db z of
           Inr tz \<Rightarrow>
             (case py_int u of
                Inl e \<Rightarrow> (s, Inl e)
              | Inr uid \<Rightarrow> get_all_loop db g used rest s data (AList.update uid tz tzs))
         | Inl _ \<Rightarrow>
             get_all_loop db g used rest (release (json_dump (del_user g u data) (acquire s)))
               (del_user g u data) tzs))"
  by (subst get_all_loop.simps) (simp add: Let_def split: sum.split)


lemma get_all_loop_valid:
  assumes "map_of data g = Some e" "length (timezones e) = used"
    and "\<forall>(u, z) \<in> set rest. db z \<noteq> None \<and> (\<exists>i. py_int u = Inr i)"
  shows "get_all_loop db g used rest s data tzs = (s, Inr (Zones (parsed_timezones db rest tzs)))"
  using assms(3)
proof (induction rest arbitrary: tzs)
  case Nil
  with assms(1,2) show ?case by (simp add: get_all_loop.simps)
next
  case (Cons p rest)
  obtain u z where p: "p = (u, z)" by (cases p)
  with Cons.prems obtain tz i where v: "db z = Some tz" "py_int u = Inr i" by auto
  from Cons.prems have "\<forall>(u, z) \<in> set rest. db z \<noteq> None \<and> (\<exists>i. py_int u = Inr i)" by simp
  note ih = Cons.IH [OF this]
  show ?case
    using assms(1,2) v
    by (subst get_all_loop.simps) (simp add: p pytz_timezone_def ih)
qed

lemma length_delete_less:
  "(u, z) \<in> set al \<Longrightarrow> length (AList.delete u al) < length al"
  by (induction al) (auto simp: AList.delete_eq le_imp_less_Suc)

lemma get_all_loop_size_changed:
  assumes "map_of data g = Some e" "length (timezones e) \<noteq> used"
  shows "get_all_loop db g used rest s data tzs = (s, Inl RuntimeError)"
  using assms by (subst get_all_loop.simps) simp

lemma get_all_loop_stale:
  assumes "map_of data g = Some e" "length (timezones e) = used"
    and "set rest \<subseteq> set (timezones e)"
    and "\<forall>(u, z) \<in> set rest. \<exists>i. py_int u = Inr i"
    and "\<exists>(u, z) \<in> set rest. db z = None"
  shows "snd (get_all_loop db g used rest s data tzs) = Inl RuntimeError"
  using assms(3,4,5)
proof (induction rest arbitrary: tzs)
  case Nil
  then show ?case by simp
next
  case (Cons p rest)
  obtain u z where p: "p = (u, z)" by (cases p)
  from Cons.prems p obtain i where i: "py_int u = Inr i" by auto
  from Cons.prems p have mem: "(u, z) \<in> set (timezones e)" by auto
  show ?case
  proof (cases "db z")
    case None
    let ?data' = "del_user g u data"
    have "map_of ?data' g = Some (e\<lparr>timezones := AList.delete u (timezones e)\<rparr>)"
      using assms(1) by (simp add: map_of_del_user_same)
    moreover have "length (timezones (e\<lparr>timezones := AList.delete u (timezones e)\<rparr>)) \<noteq> used"
      using length_delete_less [OF mem] assms(2) by simp
    ultimately have "get_all_loop db g used rest s' ?data' tzs = (s', Inl RuntimeError)" for s'
      by (rule get_all_loop_size_changed)
    then show ?thesis
      using assms(1,2) None
      by (subst get_all_loop.simps) (simp add: p pytz_timezone_def Let_def)
  next
    case (Some tz)
    with Cons.prems p have "\<exists>(u, z) \<in> set rest. db z = None" by auto
    moreover from Cons.prems have "set rest \<subseteq> set (timezones e)"
      "\<forall>(u, z) \<in> set rest. \<exists>i. py_int u = Inr i" by auto
    ultimately have "snd (get_all_loop db g used rest s data tzs') = Inl RuntimeError" for tzs'
      using Cons.IH by blast
    then show ?thesis
      using assms(1,2) Some i
      by (subst get_all_loop.simps) (simp add: p pytz_timezone_def)
  qed
qed

lemma get_all_loop_file:
  assumes "timezone_file s = data"
  shows "\<exists>us. timezone_file (fst (get_all_loop db g used rest s data tzs))
               = foldl (\<lambda>d u. del_user g u d) data us"
  using assms
proof (induction rest arbitrary: s data tzs used)
  case Nil
  have "timezone_file (fst (get_all_loop db g used [] s data tzs)) = foldl (\<lambda>d u. del_user g u d) data []"
    using Nil by (subst get_all_loop.simps) simp
  then show ?case by blast
next
  case (Cons p rest)
  obtain u z where p: "p = (u, z)" by (cases p)
  let ?s' = "release (json_dump (del_user g u data) (acquire s))"
  have f: "timezone_file ?s' = del_user g u data"
    by (simp add: release_def json_dump_def acquire_def)
  have healed: "\<exists>us. timezone_file (fst (get_all_loop db g used' rest ?s' (del_user g u data) tzs))
           = foldl (\<lambda>d u. del_user g u d) data us" for used'
  proof -
    from Cons.IH [OF f] obtain us where
      "timezone_file (fst (get_all_loop db g used' rest ?s' (del_user g u data) tzs))
           = foldl (\<lambda>d u. del_user g u d) data (u # us)" by auto
    then show ?thesis by blast
  qed
  have same: "\<exists>us. timezone_file (fst (get_all_loop db g used' rest s data tzs'))
               = foldl (\<lambda>d u. del_user g u d) data us" for tzs' used'
    using Cons.IH [OF Cons.prems] .
  have "timezone_file s = foldl (\<lambda>d u. del_user g u d) data []"
    using Cons.prems by simp
  then have nil: "\<exists>us. timezone_file s = foldl (\<lambda>d u. del_user g u d) data us" by blast
  show ?case
    by (subst get_all_loop.simps)
       (simp add: p Let_def healed same nil split: option.split sum.split)
qed

lemma fold_del_user_other:
  "k \<noteq> g \<Longrightarrow> map_of (foldl (\<lambda>d u. del_user g u d) data us) k = map_of data k"
  by (induction us arbitrary: data) (simp_all add: map_of_del_user_other)

lemma del_user_time_message:
  "map_option time_message (map_of (del_user g u data) k) = map_option time_message (map_of data k)"
  by (cases "k = g") (simp_all add: map_of_del_user_same map_of_del_user_other option.map_comp comp_def)

lemma fold_del_user_time_message:
  "map_option time_message (map_of (foldl (\<lambda>d u. del_user g u d) data us) k)
     = map_option time_message (map_of data k)"
  by (induction us arbitrary: data) (simp_all add: del_user_time_message)

lemma stored_time_message_alt:
  "stored_time_message data c = Option.bind (map_option time_message (map_of data (str_int c))) id"
  by (simp add: stored_time_message_def split: option.split)

lemma get_timezone_file_form:
  "\<exists>us. timezone_file (fst (get_timezone db s c uid))
          = foldl (\<lambda>d u. del_user (str_int c) u d) (timezone_file s) us"
proof (cases uid)
  case None
  let ?s1 = "release (snd (json_load (acquire s)))"
  have f: "timezone_file ?s1 = timezone_file s"
    by (simp add: release_def json_load_def acquire_def)
  have nil: "\<exists>us. timezone_file ?s1 = foldl (\<lambda>d u. del_user (str_int c) u d) (timezone_file s) us"
  proof -
    have "timezone_file ?s1 = foldl (\<lambda>d u. del_user (str_int c) u d) (timezone_file s) []"
      using f by simp
    then show ?thesis by blast
  qed
  show ?thesis
  proof (cases "map_of (timezone_file s) (str_int c)")
    case n: None
    with None have "fst (get_timezone db s c uid) = ?s1"
      by (simp add: get_timezone_def json_load_def acquire_def Let_def)
    with nil show ?thesis by simp
  next
    case (Some e)
    with None have "fst (get_timezone db s c uid)
        = fst (get_all_loop db (str_int c) (length (timezones e)) (timezones e) ?s1 (timezone_file s) [])"
      by (simp add: get_timezone_def json_load_def acquire_def Let_def)
    with get_all_loop_file [OF f] show ?thesis by simp
  qed
next
  case (Some m)
  have "timezone_file (fst (get_timezone db s c (Some m))) = foldl (\<lambda>d u. del_user (str_int c) u d) (timezone_file s) []
      \<or> timezone_file (fst (get_timezone db s c (Some m))) = foldl (\<lambda>d u. del_user (str_int c) u d) (timezone_file s) [str_int m]"
    by (simp add: get_timezone_user_file split: option.split)
  with Some show ?thesis by blast
qed

lemma stored_time_message_get_timezone:
  "stored_time_message (timezone_file (fst (get_timezone db s c uid))) k
     = stored_time_message (timezone_file s) k"
proof -
  obtain us where "timezone_file (fst (get_timezone db s c uid))
          = foldl (\<lambda>d u. del_user (str_int c) u d) (timezone_file s) us"
    using get_timezone_file_form by blast
  then show ?thesis by (simp add: stored_time_message_alt fold_del_user_time_message)
qed

lemma map_of_get_timezone_other:
  assumes "k \<noteq> str_int c"
  shows "map_of (timezone_file (fst (get_timezone db s c uid))) k = map_of (timezone_file s) k"
proof -
  obtain us where "timezone_file (fst (get_timezone db s c uid))
          = foldl (\<lambda>d u. del_user (str_int c) u d) (timezone_file s) us"
    using get_timezone_file_form by blast
  with assms show ?thesis by (simp add: fold_del_user_other)
qed

lemma get_timezone_all_valid:
  assumes "\<forall>(u, z) \<in> set (guild_timezones (timezone_file s) c). db z \<noteq> None \<and> (\<exists>i. py_int u = Inr i)"
  shows "get_timezone db s c None =
           (release (snd (json_load (acquire s))),
            Inr (Zones (parsed_timezones db (guild_timezones (timezone_file s) c) [])))"
proof (cases "map_of (timezone_file s) (str_int c)")
  case None
  then show ?thesis
    by (simp add: get_timezone_def guild_timezones_def json_load_def acquire_def Let_def)
next
  case (Some e)
  with assms have v: "\<forall>(u, z) \<in> set (timezones e). db z \<noteq> None \<and> (\<exists>i. py_int u = Inr i)"
    by (simp add: guild_timezones_def)
  show ?thesis
    using Some get_all_loop_valid [OF Some refl v]
    by (simp add: get_timezone_def guild_timezones_def json_load_def acquire_def Let_def)
qed

lemma get_timezone_any_stale:
  assumes "\<forall>(u, z) \<in> set (guild_timezones (timezone_file s) c). \<exists>i. py_int u = Inr i"
    and "\<exists>(u, z) \<in> set (guild_timezones (timezone_file s) c). db z = None"
  shows "snd (get_timezone db s c None) = Inl RuntimeError"
proof (cases "map_of (timezone_file s) (str_int c)")
  case None
  with assms(2) show ?thesis by (simp add: guild_timezones_def)
next
  case (Some e)
  with assms have "\<forall>(u, z) \<in> set (timezones e). \<exists>i. py_int u = Inr i"
    "\<exists>(u, z) \<in> set (timezones e). db z = None"
    by (simp_all add: guild_timezones_def)
  from get_all_loop_stale [OF Some refl subset_refl this]
  show ?thesis
    using Some by (simp add: get_timezone_def json_load_def acquire_def Let_def)
qed

lemma fst_create_time_message_embed:
  "fst (create_time_message_embed env s c b) = fst (get_timezone (tzdb env) s c None)"
  by (simp add: create_time_message_embed_def split: prod.split sum.split found.split)

lemma create_time_message_embed_valid:
  assumes "\<forall>(u, z) \<in> set (guild_timezones (timezone_file s) c).
             tzdb env z \<noteq> None \<and> (\<exists>i. py_int u = Inr i)"
  shows "snd (create_time_message_embed env s c b)
           = Inr (embed_of env b (parsed_timezones (tzdb env) (guild_timezones (timezone_file s) c) []))"
  by (simp add: create_time_message_embed_def get_timezone_all_valid [OF assms])

lemma snd_get_all_loop_cong:
  assumes "map_of data g = map_of data' g"
  shows "snd (get_all_loop db g used rest s data tzs) = snd (get_all_loop db g used rest s' data' tzs)"
  using assms
proof (induction rest arbitrary: s s' data data' tzs)
  case Nil
  then show ?case by (simp add: get_all_loop_Nil)
next
  case (Cons p rest)
  obtain u z where p: "p = (u, z)" by (cases p)
  have d: "map_of (del_user g u data) g = map_of (del_user g u data') g"
    using Cons.prems by (simp add: map_of_del_user_same)
  have ih1: "snd (get_all_loop db g used rest t (del_user g u data) tzs')
           = snd (get_all_loop db g used rest t' (del_user g u data') tzs')" for t t' tzs'
    using Cons.IH [OF d] .
  have ih2: "snd (get_all_loop db g used rest s data tzs')
           = snd (get_all_loop db g used rest s' data' tzs')" for tzs'
    using Cons.IH [OF Cons.prems] .
  show ?case
    by (simp add: p get_all_loop_Cons Cons.prems ih1 ih2 split: sum.split)
qed

lemma snd_get_timezone_cong:
  assumes "map_of (timezone_file s) (str_int c) = map_of (timezone_file s') (str_int c)"
  shows "snd (get_timezone db s c None) = snd (get_timezone db s' c None)"
proof (cases "map_of (timezone_file s) (str_int c)")
  case None
  with assms show ?thesis
    by (simp add: get_timezone_def json_load_def acquire_def Let_def)
next
  case (Some e)
  with assms have s': "map_of (timezone_file s') (str_int c) = Some e" by simp
  show ?thesis
    using Some s' snd_get_all_loop_cong [OF assms]
    by (simp add: get_timezone_def json_load_def acquire_def Let_def)
qed

lemma snd_create_time_message_embed:
  "snd (create_time_message_embed env s c b) =
     (case snd (get_timezone (tzdb env) s c None) of
        Inl e \<Rightarrow> Inl e
      | Inr NotSet \<Rightarrow> Inr (embed_of env b [])
      | Inr (Zone tz) \<Rightarrow> Inl AttributeError
      | Inr (Zones tzs) \<Rightarrow> Inr (embed_of env b tzs))"
  by (simp add: create_time_message_embed_def split: prod.split sum.split found.split)

lemma snd_create_time_message_embed_cong:
  assumes "map_of (timezone_file s) (str_int c) = map_of (timezone_file s') (str_int c)"
  shows "snd (create_time_message_embed env s c b) = snd (create_time_message_embed env s' c b)"
  by (simp only: snd_create_time_message_embed snd_get_timezone_cong [OF assms])

section \<open>The critical sections of the operations on the store\<close>









section \<open>The refresh task\<close>

lemma file_remove_stored_time_message:
  "timezone_file (remove_stored_time_message s g) =
     (case map_of (timezone_file s) (str_int g) of
        None \<Rightarrow> timezone_file s
      | Some e \<Rightarrow>
          if time_message e \<noteq> None
          then AList.map_entry (str_int g) (\<lambda>e. e\<lparr>time_message := None\<rparr>) (timezone_file s)
          else timezone_file s)"
  by (simp add: remove_stored_time_message_def json_load_def json_dump_def acquire_def
      release_def Let_def split: option.split)

lemma stored_time_message_removed:
  "stored_time_message (timezone_file (remove_stored_time_message s g)) g = None"
proof (cases "map_of (timezone_file s) (str_int g)")
  case None
  then show ?thesis by (simp add: file_remove_stored_time_message stored_time_message_def)
next
  case (Some e)
  then show ?thesis
    by (cases "time_message e")
       (simp_all add: file_remove_stored_time_message stored_time_message_def map_of_map_entry)
qed

lemma map_of_remove_stored_other:
  "k \<noteq> str_int g \<Longrightarrow>
     map_of (timezone_file (remove_stored_time_message s g)) k = map_of (timezone_file s) k"
  by (auto simp: file_remove_stored_time_message map_of_map_entry split: option.split)

lemma update_guild_unresolvable:
  assumes "\<not> get_guild env g"
  shows "map_of (time_message_cache (update_guild env cg g)) g = None"
    and "stored_time_message (timezone_file (disk (update_guild env cg g))) g = None"
    and "outbox (update_guild env cg g) = outbox cg"
  using assms
  by (simp_all add: update_guild_def remove_time_message_def stored_time_message_removed
      delete_conv')

lemma update_guild_resolvable:
  assumes "get_guild env g"
  shows "time_message_cache (update_guild env cg g) = time_message_cache cg"
    and "stored_time_message (timezone_file (disk (update_guild env cg g))) g
           = stored_time_message (timezone_file (disk cg)) g"
proof -
  have f: "fst (create_time_message_embed env (disk cg) g True)
             = fst (get_timezone (tzdb env) (disk cg) g None)"
    by (rule fst_create_time_message_embed)
  show "time_message_cache (update_guild env cg g) = time_message_cache cg"
    using assms by (simp add: update_guild_def split: option.split prod.split sum.split)
  have "disk (update_guild env cg g) = disk cg
      \<or> disk (update_guild env cg g) = fst (create_time_message_embed env (disk cg) g True)"
    using assms
    by (auto simp: update_guild_def split: option.split prod.split sum.split)
  then show "stored_time_message (timezone_file (disk (update_guild env cg g))) g
           = stored_time_message (timezone_file (disk cg)) g"
    by (auto simp: f stored_time_message_get_timezone)
qed

lemma outbox_update_guild:
  assumes "map_of (time_message_cache cg) g = Some msg"
  shows "outbox (update_guild env cg g) = outbox cg @ expected_edits env (disk cg) (g, msg)"
  using assms
  by (auto simp: update_guild_def expected_edits_def remove_time_message_def
      split: prod.split sum.split)

lemma update_guild_other:
  assumes "g' \<noteq> g"
  shows "map_of (time_message_cache (update_guild env cg g')) g = map_of (time_message_cache cg) g"
    and "map_of (timezone_file (disk (update_guild env cg g'))) (str_int g)
           = map_of (timezone_file (disk cg)) (str_int g)"
proof -
  from assms have ne: "str_int g \<noteq> str_int g'" using str_int_inj by blast
  show "map_of (time_message_cache (update_guild env cg g')) g = map_of (time_message_cache cg) g"
    using assms
    by (simp add: update_guild_def remove_time_message_def delete_conv'
        split: option.split prod.split sum.split)
  have f: "fst (create_time_message_embed env (disk cg) g' True)
             = fst (get_timezone (tzdb env) (disk cg) g' None)"
    by (rule fst_create_time_message_embed)
  have "disk (update_guild env cg g') = disk cg
      \<or> disk (update_guild env cg g') = remove_stored_time_message (disk cg) g'
      \<or> disk (update_guild env cg g') = fst (create_time_message_embed env (disk cg) g' True)"
    by (auto simp: update_guild_def remove_time_message_def
        split: option.split prod.split sum.split)
  then show "map_of (timezone_file (disk (update_guild env cg g'))) (str_int g)
           = map_of (timezone_file (disk cg)) (str_int g)"
    using ne by (auto simp: f map_of_get_timezone_other map_of_remove_stored_other)
qed

lemma fold_update_guild_other:
  assumes "g \<notin> set gs"
  shows "map_of (time_message_cache (foldl (update_guild env) cg gs)) g
           = map_of (time_message_cache cg) g
       \<and> map_of (timezone_file (disk (foldl (update_guild env) cg gs))) (str_int g)
           = map_of (timezone_file (disk cg)) (str_int g)"
  using assms
  by (induction gs arbitrary: cg) (simp_all add: update_guild_other)

lemma outbox_fold_update_guild:
  assumes "distinct (map fst kms)"
    and "\<forall>(g, msg) \<in> set kms.
           map_of (time_message_cache cg) g = Some msg
           \<and> map_of (timezone_file (disk cg)) (str_int g) = map_of (timezone_file s0) (str_int g)"
  shows "outbox (foldl (update_guild env) cg (map fst kms))
           = outbox cg @ concat (map (expected_edits env s0) kms)"
  using assms
proof (induction kms arbitrary: cg)
  case Nil
  then show ?case by simp
next
  case (Cons km kms)
  obtain g msg where km: "km = (g, msg)" by (cases km)
  from Cons.prems km have c: "map_of (time_message_cache cg) g = Some msg"
    and f: "map_of (timezone_file (disk cg)) (str_int g) = map_of (timezone_file s0) (str_int g)"
    by auto
  have e: "expected_edits env (disk cg) (g, msg) = expected_edits env s0 (g, msg)"
    by (simp add: expected_edits_def snd_create_time_message_embed_cong [OF f])
  have o: "outbox (update_guild env cg g) = outbox cg @ expected_edits env s0 (g, msg)"
    using outbox_update_guild [OF c, where env = env] e by simp
  have inv: "\<forall>(g', msg') \<in> set kms.
           map_of (time_message_cache (update_guild env cg g)) g' = Some msg'
           \<and> map_of (timezone_file (disk (update_guild env cg g))) (str_int g')
               = map_of (timezone_file s0) (str_int g')"
  proof (clarify, rule conjI)
    fix g' msg' assume m: "(g', msg') \<in> set kms"
    with Cons.prems(1) km have ne: "g \<noteq> g'" by (auto simp: rev_image_eqI)
    from m Cons.prems(2) have "map_of (time_message_cache cg) g' = Some msg'"
      and "map_of (timezone_file (disk cg)) (str_int g') = map_of (timezone_file s0) (str_int g')"
      by auto
    with update_guild_other [OF ne, of env cg]
    show "map_of (time_message_cache (update_guild env cg g)) g' = Some msg'"
      and "map_of (timezone_file (disk (update_guild env cg g))) (str_int g')
               = map_of (timezone_file s0) (str_int g')" by simp_all
  qed
  from Cons.prems(1) have "distinct (map fst kms)" by simp
  from Cons.IH [OF this inv] o show ?case by (simp add: km)
qed

lemma stored_time_message_cong:
  "map_of data (str_int g) = map_of data' (str_int g) \<Longrightarrow>
     stored_time_message data g = stored_time_message data' g"
  by (simp add: stored_time_message_def)

lemma tick_evicts_or_keeps:
  fixes env :: "('tz, 'dt::linorder) env"
  assumes "distinct (map fst (time_message_cache cg))"
    and "(g, msg) \<in> set (time_message_cache cg)"
  shows "\<not> get_guild env g \<Longrightarrow>
           map_of (time_message_cache (time_message_updater_task env cg)) g = None
           \<and> stored_time_message (timezone_file (disk (time_message_updater_task env cg))) g = None"
    and "get_guild env g \<Longrightarrow>
           map_of (time_message_cache (time_message_updater_task env cg)) g = Some msg
           \<and> stored_time_message (timezone_file (disk (time_message_updater_task env cg))) g
               = stored_time_message (timezone_file (disk cg)) g"
proof -
  from assms(2) obtain xs ys where split: "time_message_cache cg = xs @ (g, msg) # ys"
    by (auto dest: split_list)
  with assms(1) have pre: "g \<notin> set (map fst xs)" and post: "g \<notin> set (map fst ys)" by auto
  define cg1 where "cg1 = foldl (update_guild env) cg (map fst xs)"
  define cg2 where "cg2 = update_guild env cg1 g"
  have tick: "time_message_updater_task env cg = foldl (update_guild env) cg2 (map fst ys)"
    by (simp add: time_message_updater_task_def split cg1_def cg2_def)
  have c0: "map_of (time_message_cache cg) g = Some msg"
    using assms by simp
  from fold_update_guild_other [OF pre, of env cg]
  have c1: "map_of (time_message_cache cg1) g = Some msg"
    and f1: "map_of (timezone_file (disk cg1)) (str_int g) = map_of (timezone_file (disk cg)) (str_int g)"
    using c0 by (simp_all add: cg1_def)
  from fold_update_guild_other [OF post, of env cg2]
  have c2: "map_of (time_message_cache (time_message_updater_task env cg)) g
              = map_of (time_message_cache cg2) g"
    and f2: "map_of (timezone_file (disk (time_message_updater_task env cg))) (str_int g)
              = map_of (timezone_file (disk cg2)) (str_int g)"
    by (simp_all add: tick)
  note m2 = stored_time_message_cong [OF f2]
  note m1 = stored_time_message_cong [OF f1]
  show "\<not> get_guild env g \<Longrightarrow>
           map_of (time_message_cache (time_message_updater_task env cg)) g = None
           \<and> stored_time_message (timezone_file (disk (time_message_updater_task env cg))) g = None"
    using update_guild_unresolvable(1,2) [of env g cg1] c2 m2 by (simp add: cg2_def)
  show "get_guild env g \<Longrightarrow>
           map_of (time_message_cache (time_message_updater_task env cg)) g = Some msg
           \<and> stored_time_message (timezone_file (disk (time_message_updater_task env cg))) g
               = stored_time_message (timezone_file (disk cg)) g"
    using update_guild_resolvable [of env g cg1] c1 c2 m1 m2 by (simp add: cg2_def)
qed

lemma tick_outbox:
  fixes env :: "('tz, 'dt::linorder) env"
  assumes "distinct (map fst (time_message_cache cg))"
  shows "outbox (time_message_updater_task env cg)
           = outbox cg @ concat (map (expected_edits env (disk cg)) (time_message_cache cg))"
  unfolding time_message_updater_task_def
  by (rule outbox_fold_update_guild [OF assms]) (auto simp: assms)

text \<open>
  Claim C6 at a guild of the cache that resolves, whose channel grants
  \<^verbatim>\<open>send_messages\<close> and for which one of two stored identifiers is stale. The
  claim has the display recomputed and the cached message edited. In the tick
  \<^verbatim>\<open>get_timezone\<close> raises \<^verbatim>\<open>RuntimeError\<close> inside
  \<^verbatim>\<open>create_time_message_embed\<close> after it has removed the stale entry, the task
  catches the exception, and no edit is issued; the cache entry and the persisted time
  message stay. The next tick, on the document without the stale entry, issues the edit.
\<close>

theorem refresh_tick_stale_no_edit:
  "get_guild \<lparr>tzdb = [''utc'' \<mapsto> (0::nat)], zone = (\<lambda>tz. ''UTC''), now_string = (\<lambda>tz. ''now''),
       naive_time = (\<lambda>tz. tz), strftime = (\<lambda>t::nat. ''t''), timestamp = 0,
       get_guild = (\<lambda>g. True), send_messages = (\<lambda>g m. True)\<rparr> 1
   \<and> send_messages \<lparr>tzdb = [''utc'' \<mapsto> (0::nat)], zone = (\<lambda>tz. ''UTC''), now_string = (\<lambda>tz. ''now''),
       naive_time = (\<lambda>tz. tz), strftime = (\<lambda>t::nat. ''t''), timestamp = 0,
       get_guild = (\<lambda>g. True), send_messages = (\<lambda>g m. True)\<rparr> 1 (7, 8)
   \<and> snd (create_time_message_embed
       \<lparr>tzdb = [''utc'' \<mapsto> (0::nat)], zone = (\<lambda>tz. ''UTC''), now_string = (\<lambda>tz. ''now''),
        naive_time = (\<lambda>tz. tz), strftime = (\<lambda>t::nat. ''t''), timestamp = 0,
        get_guild = (\<lambda>g. True), send_messages = (\<lambda>g m. True)\<rparr>
       \<lparr>timezone_file =
          [(''1'', \<lparr>timezones = [(''5'', ''utc''), (''6'', ''mars/phobos'')],
                     time_message = Some (7, 8)\<rparr>)],
        events = []\<rparr> 1 True) = Inl RuntimeError
   \<and> outbox (time_message_updater_task
       \<lparr>tzdb = [''utc'' \<mapsto> (0::nat)], zone = (\<lambda>tz. ''UTC''), now_string = (\<lambda>tz. ''now''),
        naive_time = (\<lambda>tz. tz), strftime = (\<lambda>t::nat. ''t''), timestamp = 0,
        get_guild = (\<lambda>g. True), send_messages = (\<lambda>g m. True)\<rparr>
       \<lparr>disk = \<lparr>timezone_file =
                  [(''1'', \<lparr>timezones = [(''5'', ''utc''), (''6'', ''mars/phobos'')],
                             time_message = Some (7, 8)\<rparr>)],
                events = []\<rparr>,
        time_message_cache = [(1, (7, 8))], outbox = []\<rparr>) = []
   \<and> time_message_cache (time_message_updater_task
       \<lparr>tzdb = [''utc'' \<mapsto> (0::nat)], zone = (\<lambda>tz. ''UTC''), now_string = (\<lambda>tz. ''now''),
        naive_time = (\<lambda>tz. tz), strftime = (\<lambda>t::nat. ''t''), timestamp = 0,
        get_guild = (\<lambda>g. True), send_messages = (\<lambda>g m. True)\<rparr>
       \<lparr>disk = \<lparr>timezone_file =
                  [(''1'', \<lparr>timezones = [(''5'', ''utc''), (''6'', ''mars/phobos'')],
                             time_message = Some (7, 8)\<rparr>)],
                events = []\<rparr>,
        time_message_cache = [(1, (7, 8))], outbox = []\<rparr>) = [(1, (7, 8))]
   \<and> timezone_file (disk (time_message_updater_task
       \<lparr>tzdb = [''utc'' \<mapsto> (0::nat)], zone = (\<lambda>tz. ''UTC''), now_string = (\<lambda>tz. ''now''),
        naive_time = (\<lambda>tz. tz), strftime = (\<lambda>t::nat. ''t''), timestamp = 0,
        get_guild = (\<lambda>g. True), send_messages = (\<lambda>g m. True)\<rparr>
       \<lparr>disk = \<lparr>timezone_file =
                  [(''1'', \<lparr>timezones = [(''5'', ''utc''), (''6'', ''mars/phobos'')],
                             time_message = Some (7, 8)\<rparr>)],
                events = []\<rparr>,
        time_message_cache = [(1, (7, 8))], outbox = []\<rparr>))
       = [(''1'', \<lparr>timezones = [(''5'', ''utc'')], time_message = Some (7, 8)\<rparr>)]
   \<and> outbox (time_message_updater_task
       \<lparr>tzdb = [''utc'' \<mapsto> (0::nat)], zone = (\<lambda>tz. ''UTC''), now_string = (\<lambda>tz. ''now''),
        naive_time = (\<lambda>tz. tz), strftime = (\<lambda>t::nat. ''t''), timestamp = 0,
        get_guild = (\<lambda>g. True), send_messages = (\<lambda>g m. True)\<rparr>
       (time_message_updater_task
         \<lparr>tzdb = [''utc'' \<mapsto> (0::nat)], zone = (\<lambda>tz. ''UTC''), now_string = (\<lambda>tz. ''now''),
          naive_time = (\<lambda>tz. tz), strftime = (\<lambda>t::nat. ''t''), timestamp = 0,
          get_guild = (\<lambda>g. True), send_messages = (\<lambda>g m. True)\<rparr>
         \<lparr>disk = \<lparr>timezone_file =
                    [(''1'', \<lparr>timezones = [(''5'', ''utc''), (''6'', ''mars/phobos'')],
                               time_message = Some (7, 8)\<rparr>)],
                  events = []\<rparr>,
          time_message_cache = [(1, (7, 8))], outbox = []\<rparr>))
       = [Edit (7, 8) (embed_of
            \<lparr>tzdb = [''utc'' \<mapsto> (0::nat)], zone = (\<lambda>tz. ''UTC''), now_string = (\<lambda>tz. ''now''),
             naive_time = (\<lambda>tz. tz), strftime = (\<lambda>t::nat. ''t''), timestamp = 0,
             get_guild = (\<lambda>g. True), send_messages = (\<lambda>g m. True)\<rparr> True [(5, 0)])]"
  by code_simp

end
